theory Spec2Isabelle
  imports Complex_Main
begin

section \<open>Line rasterizer: \<open>plotLine\<close>\<close>

text \<open>
  Coordinates, differences and the error term of \<open>plotLine\<close> are JavaScript numbers that
  hold integers; they are modelled as unbounded \<open>int\<close>. The model is exact as long as every
  intermediate value stays a safe integer (below \<open>2 ^ 53\<close> in absolute value), which covers
  every grid the program can build (dimension at most 100). Beyond that range the numbers
  round; \<open>plotLine_double\<close> below is the same code with the rounding of doubles, and the
  two agree on all arguments up to \<open>2 ^ 49\<close>.

  The body of the \<open>while (true)\<close> loop calls \<open>changeCellColor(x0, y0)\<close> first; the model
  returns the list of these calls in order. The loop has three \<open>break\<close> statements and no
  other exit, so it is a partial function: \<open>None\<close> means that it does not return.
\<close>

type_synonym cell_pos = "int \<times> int"

partial_function (option) plotLine_loop ::
  "int \<Rightarrow> int \<Rightarrow> int \<Rightarrow> int \<Rightarrow> int \<Rightarrow> int \<Rightarrow> int \<Rightarrow> int \<Rightarrow> int \<Rightarrow> cell_pos list option"
where
  "plotLine_loop x1 y1 dx dy sx sy x0 y0 error =
     (if x0 = x1 \<and> y0 = y1 then Some [(x0, y0)]
      else
        let e2 = 2 * error in
        if e2 \<ge> dy \<and> x0 = x1 then Some [(x0, y0)]
        else
          let error' = (if e2 \<ge> dy then error + dy else error);
              x0' = (if e2 \<ge> dy then x0 + sx else x0) in
          if e2 \<le> dx \<and> y0 = y1 then Some [(x0, y0)]
          else
            let error'' = (if e2 \<le> dx then error' + dx else error');
                y0' = (if e2 \<le> dx then y0 + sy else y0) in
            Option.bind (plotLine_loop x1 y1 dx dy sx sy x0' y0' error'')
              (\<lambda>rest. Some ((x0, y0) # rest)))"

definition plotLine :: "int \<Rightarrow> int \<Rightarrow> int \<Rightarrow> int \<Rightarrow> cell_pos list option" where
  "plotLine x0 y0 x1 y1 =
     (let dx = \<bar>x1 - x0\<bar>;
          sx = (if x0 < x1 then 1 else -1);
          dy = - \<bar>y1 - y0\<bar>;
          sy = (if y0 < y1 then 1 else -1);
          error = dx + dy
      in plotLine_loop x1 y1 dx dy sx sy x0 y0 error)"


text \<open>Two cells are 8-adjacent when they differ by at most 1 in each axis.\<close>

fun adjacent8 :: "cell_pos \<Rightarrow> cell_pos \<Rightarrow> bool" where
  "adjacent8 (x, y) (x', y') = (\<bar>x' - x\<bar> \<le> 1 \<and> \<bar>y' - y\<bar> \<le> 1)"

fun chain8 :: "cell_pos list \<Rightarrow> bool" where
  "chain8 [] = True"
| "chain8 [c] = True"
| "chain8 (c # d # cs) = (adjacent8 c d \<and> chain8 (d # cs))"

text \<open>
  The loop invariant. With \<open>da = dx\<close> and \<open>db = - dy\<close>, the error term is determined by the
  distances still to go, the step directions point at the target, and on the major axis
  the branch of the loop that steps is always taken.
\<close>

definition plot_inv :: "int \<Rightarrow> int \<Rightarrow> int \<Rightarrow> int \<Rightarrow> int \<Rightarrow> int \<Rightarrow> int \<Rightarrow> int \<Rightarrow> int \<Rightarrow> bool" where
  "plot_inv X Y da db sx sy x y e \<longleftrightarrow>
     0 \<le> da \<and> 0 \<le> db \<and> \<bar>X - x\<bar> \<le> da \<and> \<bar>Y - y\<bar> \<le> db \<and>
     e = da - db + \<bar>X - x\<bar> * db - \<bar>Y - y\<bar> * da \<and>
     (x < X \<longrightarrow> sx = 1) \<and> (X < x \<longrightarrow> sx = -1) \<and>
     (y < Y \<longrightarrow> sy = 1) \<and> (Y < y \<longrightarrow> sy = -1) \<and>
     (db \<le> da \<longrightarrow> - db \<le> 2 * e) \<and> (da < db \<longrightarrow> 2 * e \<le> da)"

definition plot_dist :: "int \<Rightarrow> int \<Rightarrow> int \<Rightarrow> int \<Rightarrow> int \<Rightarrow> int \<Rightarrow> int" where
  "plot_dist X Y da db x y = (if db \<le> da then \<bar>X - x\<bar> else \<bar>Y - y\<bar>)"

section \<open>Line rasterizer with the rounding of JavaScript numbers\<close>

text \<open>
  A JavaScript number is a double. Every integer of magnitude up to \<open>2 ^ 53\<close>
  (9007199254740992) is a double; from there on doubles are 2 apart, from \<open>2 ^ 54\<close> on 4
  apart, and so on (\<open>spacing\<close>). The result of an addition, subtraction or multiplication
  of integers is the double nearest to the exact result, and on a tie the one whose
  multiple of the spacing is even (\<open>toDouble\<close>). Overflow to \<open>Infinity\<close>, beyond
  \<open>2 ^ 1024\<close>, is not modelled.
\<close>

function spacing :: "int \<Rightarrow> int" where
  "spacing v = (if \<bar>v\<bar> < 9007199254740992 then 1 else 2 * spacing (\<bar>v\<bar> div 2))"
  by pat_completeness auto
termination
  by (relation "measure (\<lambda>v. nat \<bar>v\<bar>)") auto

declare spacing.simps [simp del]

definition toDouble :: "int \<Rightarrow> int" where
  "toDouble v =
     (let u = spacing v;
          q = \<bar>v\<bar> div u;
          rest = \<bar>v\<bar> mod u;
          n = (if 2 * rest < u then q else if u < 2 * rest then q + 1
               else if even q then q else q + 1)
      in sgn v * (n * u))"

text \<open>
  \<open>plotLine\<close> again, every arithmetic result rounded: \<open>x1 - x0\<close>, \<open>y1 - y0\<close>,
  \<open>dx + dy\<close>, \<open>2 * error\<close>, \<open>error + dy\<close>, \<open>x0 + sx\<close>, \<open>error + dx\<close> and \<open>y0 + sy\<close>.
  \<open>Math.abs\<close>, the negation and the comparisons are exact. The arguments are integers that
  are doubles.
\<close>

partial_function (option) plotLine_loop_double ::
  "int \<Rightarrow> int \<Rightarrow> int \<Rightarrow> int \<Rightarrow> int \<Rightarrow> int \<Rightarrow> int \<Rightarrow> int \<Rightarrow> int \<Rightarrow> cell_pos list option"
where
  "plotLine_loop_double x1 y1 dx dy sx sy x0 y0 error =
     (if x0 = x1 \<and> y0 = y1 then Some [(x0, y0)]
      else
        let e2 = toDouble (2 * error) in
        if e2 \<ge> dy \<and> x0 = x1 then Some [(x0, y0)]
        else
          let error' = (if e2 \<ge> dy then toDouble (error + dy) else error);
              x0' = (if e2 \<ge> dy then toDouble (x0 + sx) else x0) in
          if e2 \<le> dx \<and> y0 = y1 then Some [(x0, y0)]
          else
            let error'' = (if e2 \<le> dx then toDouble (error' + dx) else error');
                y0' = (if e2 \<le> dx then toDouble (y0 + sy) else y0) in
            Option.bind (plotLine_loop_double x1 y1 dx dy sx sy x0' y0' error'')
              (\<lambda>rest. Some ((x0, y0) # rest)))"

definition plotLine_double :: "int \<Rightarrow> int \<Rightarrow> int \<Rightarrow> int \<Rightarrow> cell_pos list option" where
  "plotLine_double x0 y0 x1 y1 =
     (let dx = \<bar>toDouble (x1 - x0)\<bar>;
          sx = (if x0 < x1 then 1 else -1);
          dy = - \<bar>toDouble (y1 - y0)\<bar>;
          sy = (if y0 < y1 then 1 else -1);
          error = toDouble (dx + dy)
      in plotLine_loop_double x1 y1 dx dy sx sy x0 y0 error)"

text \<open>
  The states in which the rounded loop is exact: coordinates up to \<open>2 ^ 49\<close>, so that
  \<open>dx - dy\<close> is at most \<open>2 ^ 51\<close>, and an error term within twice \<open>dx - dy\<close>.
\<close>

definition plot_exact :: "int \<Rightarrow> int \<Rightarrow> int \<Rightarrow> int \<Rightarrow> int \<Rightarrow> int \<Rightarrow> int \<Rightarrow> bool" where
  "plot_exact X Y da db x y e \<longleftrightarrow>
     \<bar>X\<bar> \<le> 562949953421312 \<and> \<bar>Y\<bar> \<le> 562949953421312 \<and>
     \<bar>x\<bar> \<le> 562949953421312 \<and> \<bar>y\<bar> \<le> 562949953421312 \<and>
     da + db \<le> 2251799813685248 \<and> \<bar>e\<bar> \<le> 2 * (da + db)"

text \<open>
  The state of \<open>plotLine (2 ^ 53) 0 (2 ^ 53 + 2) 0\<close> at the head of the loop.
\<close>

definition stuck_state :: "int \<Rightarrow> int \<Rightarrow> int \<Rightarrow> int \<Rightarrow> int \<Rightarrow> int \<Rightarrow> int \<Rightarrow> int \<Rightarrow> int \<Rightarrow> bool" where
  "stuck_state x1 y1 dx dy sx sy x0 y0 error \<longleftrightarrow>
     x1 = 9007199254740994 \<and> y1 = 0 \<and> dx = 2 \<and> dy = 0 \<and> sx = 1 \<and> sy = - 1 \<and>
     x0 = 9007199254740992 \<and> y0 = 0 \<and> error = 2"

section \<open>Values of the script\<close>

text \<open>
  The one exception the modelled code can raise: reading a property of \<open>undefined\<close>
  (\<open>cell.style\<close> of a missing child node, \<open>colorValues[k][0]\<close> of a missing match,
  \<open>color.r\<close> of \<open>undefined\<close>) throws a \<open>TypeError\<close>.
\<close>

datatype error = TypeError

text \<open>
  A colour object \<open>{r, g, b}\<close>. The channels the script stores are integers: results of
  \<open>Math.floor\<close>, the constant 240, or \<open>Number\<close> of a run of decimal digits.
\<close>

record rgb =
  r :: int
  g :: int
  b :: int

text \<open>
  What the variable \<open>newDimension\<close> of \<open>resetCanvas\<close> can hold: \<open>undefined\<close> before the
  first prompt, afterwards the result of \<open>Number(prompt(...))\<close>, which is \<open>NaN\<close> for text that
  is not a number, \<open>0\<close> for an empty or cancelled prompt, an infinity, or a finite number
  (integer or not).
\<close>

datatype jsvalue = Undefined | NaN | PosInfinity | NegInfinity | Num real

text \<open>
  The variable \<open>color\<close> of \<open>changeCellColor\<close> holds either the string read from
  \<open>cell.style.backgroundColor\<close> or a colour object. Reading \<open>.r\<close>, \<open>.g\<close> or \<open>.b\<close> of a
  string gives \<open>undefined\<close> (\<open>None\<close>).
\<close>

datatype color_value = CssText string | RgbObject rgb

fun prop_r :: "color_value \<Rightarrow> int option" where
  "prop_r (CssText s) = None"
| "prop_r (RgbObject c) = Some (r c)"

fun prop_g :: "color_value \<Rightarrow> int option" where
  "prop_g (CssText s) = None"
| "prop_g (RgbObject c) = Some (g c)"

fun prop_b :: "color_value \<Rightarrow> int option" where
  "prop_b (CssText s) = None"
| "prop_b (RgbObject c) = Some (b c)"

section \<open>Strings: template literals, the regular expression, the style property\<close>

text \<open>
  \<open>isDigit\<close> is the character class of decimal digits; \<open>matchAllDigits\<close> lists the
  matches of the regular expression for one or more digits, the maximal runs of digits
  from left to right; \<open>Number\<close> reads one such run.
\<close>

fun isDigit :: "char \<Rightarrow> bool" where
  "isDigit c = (c \<in> set ''0123456789'')"

fun position :: "char \<Rightarrow> string \<Rightarrow> nat" where
  "position c [] = 0"
| "position c (k # ks) = (if k = c then 0 else Suc (position c ks))"

definition digitValue :: "char \<Rightarrow> nat" where
  "digitValue c = position c ''0123456789''"

fun digitRuns :: "string \<Rightarrow> string \<Rightarrow> string list" where
  "digitRuns run [] = (if run = [] then [] else [run])"
| "digitRuns run (c # cs) =
     (if isDigit c then digitRuns (run @ [c]) cs
      else if run = [] then digitRuns [] cs
      else run # digitRuns [] cs)"

definition matchAllDigits :: "string \<Rightarrow> string list" where
  "matchAllDigits s = digitRuns [] s"

definition Number :: "string \<Rightarrow> int" where
  "Number ds = int (foldl (\<lambda>n c. 10 * n + digitValue c) 0 ds)"

text \<open>
  A number inside a template literal is printed in decimal, \<open>undefined\<close> as the word
  \<open>undefined\<close>.
\<close>

fun decimal :: "nat \<Rightarrow> string" where
  "decimal n =
     (if n < 10 then [''0123456789'' ! n]
      else decimal (n div 10) @ [''0123456789'' ! (n mod 10)])"

declare decimal.simps [simp del]

definition numberToString :: "int \<Rightarrow> string" where
  "numberToString i = (if i < 0 then CHR ''-'' # decimal (nat (- i)) else decimal (nat i))"

fun toText :: "int option \<Rightarrow> string" where
  "toText None = ''undefined''"
| "toText (Some i) = numberToString i"

text \<open>
  The browser side of \<open>cell.style.backgroundColor = value\<close>, as far as the script
  exercises it. The script only ever assigns \<open>rgb(R,B,G)\<close> built by a template literal: when
  the three parts are decimal integers the declaration is stored and later read back in
  the serialised form \<open>rgb(R, B, G)\<close> (channels above 255 clamped); when the value does not
  parse as a colour (the parts are the word \<open>undefined\<close>) the assignment is ignored and the
  old declaration stays.
\<close>

fun splitOn :: "char \<Rightarrow> string \<Rightarrow> string list" where
  "splitOn sep [] = [[]]"
| "splitOn sep (c # cs) =
     (if c = sep then [] # splitOn sep cs
      else (case splitOn sep cs of [] \<Rightarrow> [[c]] | p # ps \<Rightarrow> (c # p) # ps))"

definition parseCssRgb :: "string \<Rightarrow> (int \<times> int \<times> int) option" where
  "parseCssRgb v =
     (if take 4 v = ''rgb('' \<and> 5 \<le> length v \<and> last v = CHR '')'' then
        (let parts = splitOn CHR '','' (butlast (drop 4 v)) in
         if length parts = 3 \<and> list_all (\<lambda>p. p \<noteq> [] \<and> list_all isDigit p) parts
         then Some (Number (parts ! 0), Number (parts ! 1), Number (parts ! 2))
         else None)
      else None)"

definition serializeCssRgb :: "int \<times> int \<times> int \<Rightarrow> string" where
  "serializeCssRgb c =
     (case c of (cr, cg, cb) \<Rightarrow>
        ''rgb('' @ numberToString (min cr 255) @ '', '' @ numberToString (min cg 255) @ '', ''
          @ numberToString (min cb 255) @ '')'')"

definition setBackgroundColor :: "string \<Rightarrow> string \<Rightarrow> string" where
  "setBackgroundColor old v = (case parseCssRgb v of None \<Rightarrow> old | Some c \<Rightarrow> serializeCssRgb c)"

section \<open>The page\<close>

text \<open>
  A cell is a \<open>div\<close> with its inline background colour (the empty string when unset) and
  its \<open>data-x\<close> and \<open>data-y\<close> attributes. The page holds the globals of the script:
  \<open>canvasDimension\<close>, the children of \<open>#fake-canvas\<close>, the two checkboxes and \<open>prevPos\<close>
  (\<open>None\<close> for \<open>undefined\<close>).
\<close>

record cell =
  backgroundColor :: string
  data_x :: int
  data_y :: int

record page =
  canvasDimension :: real
  childNodes :: "cell list"
  randomChecked :: bool
  darkenChecked :: bool
  prevPos :: "(int \<times> int) option"

section \<open>Colour functions\<close>

text \<open>
  \<open>Math.random()\<close> returns a number in \<open>[0, 1)\<close>; the three draws of one call of
  \<open>getRandomColor\<close> are a parameter. \<open>getRandomColor\<close> is the function of \<open>script.js\<close>
  (factor 256), \<open>getRandomColor_variant\<close> the one of the second file (factor 255).

  Numbers that are not integers are modelled as exact reals. For the inputs of the claims
  below the value under \<open>Math.floor\<close> is at least 0.4 away from the next integer, far more
  than the rounding error of double arithmetic.
\<close>

definition getRandomColor :: "real \<times> real \<times> real \<Rightarrow> rgb" where
  "getRandomColor rnd =
     (case rnd of (u1, u2, u3) \<Rightarrow>
        \<lparr>r = \<lfloor>u1 * 256\<rfloor>, g = \<lfloor>u2 * 256\<rfloor>, b = \<lfloor>u3 * 256\<rfloor>\<rparr>)"

definition getRandomColor_variant :: "real \<times> real \<times> real \<Rightarrow> rgb" where
  "getRandomColor_variant rnd =
     (case rnd of (u1, u2, u3) \<Rightarrow>
        \<lparr>r = \<lfloor>u1 * 255\<rfloor>, g = \<lfloor>u2 * 255\<rfloor>, b = \<lfloor>u3 * 255\<rfloor>\<rparr>)"

definition clamp :: "real \<Rightarrow> real \<Rightarrow> real \<Rightarrow> real" where
  "clamp v mn mx = min (max v mn) mx"

text \<open>
  \<open>increaseColorBrightness\<close> is the function of \<open>script.js\<close> (base 256),
  \<open>changeColorBrightness\<close> the one of the second file (base 255).
\<close>

definition increaseColorBrightness :: "rgb \<Rightarrow> real \<Rightarrow> rgb" where
  "increaseColorBrightness color percent =
     (let redAmount = of_int (r color) / 256;
          greenAmount = of_int (g color) / 256;
          blueAmount = of_int (b color) / 256;
          percent' = percent / 100
      in \<lparr>r = \<lfloor>clamp ((redAmount + percent') * 256) 0 256\<rfloor>,
          g = \<lfloor>clamp ((greenAmount + percent') * 256) 0 256\<rfloor>,
          b = \<lfloor>clamp ((blueAmount + percent') * 256) 0 256\<rfloor>\<rparr>)"

definition changeColorBrightness :: "rgb \<Rightarrow> real \<Rightarrow> rgb" where
  "changeColorBrightness color percent =
     (let redAmount = of_int (r color) / 255;
          greenAmount = of_int (g color) / 255;
          blueAmount = of_int (b color) / 255;
          percent' = percent / 100
      in \<lparr>r = \<lfloor>clamp ((redAmount + percent') * 255) 0 255\<rfloor>,
          g = \<lfloor>clamp ((greenAmount + percent') * 255) 0 255\<rfloor>,
          b = \<lfloor>clamp ((blueAmount + percent') * 255) 0 255\<rfloor>\<rparr>)"

text \<open>
  \<open>rgbCSSColorToRGB\<close>: \<open>undefined\<close> (\<open>Inr None\<close>) for a falsy string; otherwise the
  first three matches of the regular expression for one or more digits;
  \<open>colorValues[k][0]\<close> throws when there are fewer than three.
\<close>

definition rgbCSSColorToRGB :: "string \<Rightarrow> error + rgb option" where
  "rgbCSSColorToRGB cssColor =
     (if cssColor = [] then Inr None
      else
        let colorValues = matchAllDigits cssColor in
        if length colorValues < 3 then Inl TypeError
        else Inr (Some \<lparr>r = Number (colorValues ! 0), g = Number (colorValues ! 1),
                         b = Number (colorValues ! 2)\<rparr>))"

section \<open>Addressing and painting a cell\<close>

text \<open>
  \<open>x % canvasDimension\<close> is the remainder of the division truncated towards zero; it is
  \<open>NaN\<close> for a zero divisor, and then so is the index (\<open>None\<close>).
  \<open>fakeCanvas.childNodes[index]\<close> is a node only when the index is a whole number in range,
  and \<open>undefined\<close> otherwise.
\<close>

definition js_trunc :: "real \<Rightarrow> int" where
  "js_trunc v = (if 0 \<le> v then \<lfloor>v\<rfloor> else \<lceil>v\<rceil>)"

definition js_rem :: "real \<Rightarrow> real \<Rightarrow> real" where
  "js_rem n d = n - d * of_int (js_trunc (n / d))"

definition cellIndex :: "real \<Rightarrow> int \<Rightarrow> int \<Rightarrow> real option" where
  "cellIndex dimension x y =
     (if dimension = 0 then None
      else Some (of_int y * dimension + of_int \<lfloor>js_rem (of_int x) dimension\<rfloor>))"

definition nodeAt :: "cell list \<Rightarrow> real option \<Rightarrow> nat option" where
  "nodeAt nodes idx =
     (case idx of
        None \<Rightarrow> None
      | Some i \<Rightarrow>
          if i = of_int \<lfloor>i\<rfloor> \<and> 0 \<le> i \<and> nat \<lfloor>i\<rfloor> < length nodes then Some (nat \<lfloor>i\<rfloor>) else None)"

definition addressedCell :: "page \<Rightarrow> int \<Rightarrow> int \<Rightarrow> nat option" where
  "addressedCell pg x y = nodeAt (childNodes pg) (cellIndex (canvasDimension pg) x y)"

definition storeColor :: "page \<Rightarrow> nat \<Rightarrow> string \<Rightarrow> page" where
  "storeColor pg pos v =
     pg\<lparr>childNodes := (childNodes pg)
          [pos := (childNodes pg ! pos)
             \<lparr>backgroundColor := setBackgroundColor (backgroundColor (childNodes pg ! pos)) v\<rparr>]\<rparr>"

text \<open>
  \<open>changeCellColor\<close> of \<open>script.js\<close>: the template literal writes the channels in the
  order \<open>r, b, g\<close>.
\<close>

definition changeCellColor :: "page \<Rightarrow> real \<times> real \<times> real \<Rightarrow> int \<Rightarrow> int \<Rightarrow> error + page" where
  "changeCellColor pg rnd x y =
     (case addressedCell pg x y of
        None \<Rightarrow> Inl TypeError
      | Some pos \<Rightarrow>
          let color = backgroundColor (childNodes pg ! pos) in
          (case
             (if color = [] then
                (if randomChecked pg then Inr (RgbObject (getRandomColor rnd))
                 else Inr (RgbObject \<lparr>r = 240, g = 240, b = 240\<rparr>))
              else if darkenChecked pg then
                (case rgbCSSColorToRGB color of
                   Inl e \<Rightarrow> Inl e
                 | Inr None \<Rightarrow> Inl TypeError
                 | Inr (Some c) \<Rightarrow> Inr (RgbObject (increaseColorBrightness c (- 10))))
              else Inr (CssText color))
           of
             Inl e \<Rightarrow> Inl e
           | Inr color' \<Rightarrow>
               Inr (storeColor pg pos
                 (''rgb('' @ toText (prop_r color') @ '','' @ toText (prop_b color') @ '',''
                    @ toText (prop_g color') @ '')''))))"

text \<open>
  \<open>changeCellColor\<close> of the second file: \<open>getRandomColor\<close> with factor 255,
  \<open>changeColorBrightness\<close>, and the channels written in the order \<open>r, g, b\<close>.
\<close>

definition changeCellColor_variant :: "page \<Rightarrow> real \<times> real \<times> real \<Rightarrow> int \<Rightarrow> int \<Rightarrow> error + page" where
  "changeCellColor_variant pg rnd x y =
     (case addressedCell pg x y of
        None \<Rightarrow> Inl TypeError
      | Some pos \<Rightarrow>
          let color = backgroundColor (childNodes pg ! pos) in
          (case
             (if color = [] then
                (if randomChecked pg then Inr (RgbObject (getRandomColor_variant rnd))
                 else Inr (RgbObject \<lparr>r = 240, g = 240, b = 240\<rparr>))
              else if darkenChecked pg then
                (case rgbCSSColorToRGB color of
                   Inl e \<Rightarrow> Inl e
                 | Inr None \<Rightarrow> Inl TypeError
                 | Inr (Some c) \<Rightarrow> Inr (RgbObject (changeColorBrightness c (- 10))))
              else Inr (CssText color))
           of
             Inl e \<Rightarrow> Inl e
           | Inr color' \<Rightarrow>
               Inr (storeColor pg pos
                 (''rgb('' @ toText (prop_r color') @ '','' @ toText (prop_g color') @ '',''
                    @ toText (prop_b color') @ '')''))))"

section \<open>Building and resetting the grid\<close>

text \<open>
  \<open>generateCanvasCells\<close> appends one cell for every \<open>index = 0, 1, 2, ...\<close> below
  \<open>canvasDimension * canvasDimension\<close>.
\<close>

definition newCell :: "real \<Rightarrow> nat \<Rightarrow> cell" where
  "newCell dimension index =
     \<lparr>backgroundColor = [], data_x = \<lfloor>js_rem (of_nat index) dimension\<rfloor>, data_y = \<lfloor>of_nat index / dimension\<rfloor>\<rparr>"

definition generateCanvasCells :: "page \<Rightarrow> page" where
  "generateCanvasCells pg =
     pg\<lparr>childNodes := childNodes pg
          @ map (newCell (canvasDimension pg))
              [0 ..< nat \<lceil>canvasDimension pg * canvasDimension pg\<rceil>]\<rparr>"

text \<open>
  The loop of \<open>resetCanvas\<close>:
  \<open>while (!newDimension || newDimension > 100 || newDimension < 0)\<close>. Comparisons with
  \<open>undefined\<close> and \<open>NaN\<close> are false, and both are falsy, as is \<open>0\<close>.
  The answers to the prompts (after \<open>Number\<close>) are a list; the loop takes one answer per
  round, and \<open>None\<close> means that it is still asking when the answers run out.
\<close>

fun isInvalidDimension :: "jsvalue \<Rightarrow> bool" where
  "isInvalidDimension Undefined = True"
| "isInvalidDimension NaN = True"
| "isInvalidDimension PosInfinity = True"
| "isInvalidDimension NegInfinity = True"
| "isInvalidDimension (Num v) = (v = 0 \<or> v > 100 \<or> v < 0)"

fun promptDimension :: "jsvalue \<Rightarrow> jsvalue list \<Rightarrow> (jsvalue \<times> jsvalue list) option" where
  "promptDimension newDimension [] =
     (if isInvalidDimension newDimension then None else Some (newDimension, []))"
| "promptDimension newDimension (answer # answers) =
     (if isInvalidDimension newDimension then promptDimension answer answers
      else Some (newDimension, answer # answers))"

fun toReal :: "jsvalue \<Rightarrow> real" where
  "toReal (Num v) = v"
| "toReal _ = 0"

text \<open>
  \<open>resetCanvas\<close> of \<open>script.js\<close>. It assigns \<open>canvasDimension\<close>, empties the canvas and
  generates the cells; the CSS variable \<open>--dimension\<close> has no effect on the model.
\<close>

definition resetCanvas :: "page \<Rightarrow> jsvalue list \<Rightarrow> page option" where
  "resetCanvas pg answers =
     (case promptDimension Undefined answers of
        None \<Rightarrow> None
      | Some (newDimension, rest) \<Rightarrow>
          Some (generateCanvasCells (pg\<lparr>canvasDimension := toReal newDimension, childNodes := []\<rparr>)))"

text \<open>
  The second file: \<open>generateCells\<close> empties the canvas itself, and \<open>resetCanvas\<close> ends
  with \<open>startPainting()\<close>, whose \<open>let prevPos = undefined\<close> is a fresh variable that the
  listeners of the new cells close over.
\<close>

definition generateCells :: "page \<Rightarrow> page" where
  "generateCells pg =
     pg\<lparr>childNodes := map (newCell (canvasDimension pg))
          [0 ..< nat \<lceil>canvasDimension pg * canvasDimension pg\<rceil>]\<rparr>"

definition startPainting :: "page \<Rightarrow> page" where
  "startPainting pg = pg\<lparr>prevPos := None\<rparr>"

definition resetCanvas_variant :: "page \<Rightarrow> jsvalue list \<Rightarrow> page option" where
  "resetCanvas_variant pg answers =
     (case promptDimension Undefined answers of
        None \<Rightarrow> None
      | Some (newDimension, rest) \<Rightarrow>
          Some (startPainting (generateCells (pg\<lparr>canvasDimension := toReal newDimension\<rparr>))))"

text \<open>
  The listeners of \<open>script.js\<close> that write \<open>prevPos\<close>: \<open>mouseLeave\<close> of a cell, and the
  \<open>mouseleave\<close> listener of the canvas.
\<close>

definition mouseLeave :: "page \<Rightarrow> cell \<Rightarrow> page" where
  "mouseLeave pg target = pg\<lparr>prevPos := Some (data_x target, data_y target)\<rparr>"

definition canvasMouseLeave :: "page \<Rightarrow> page" where
  "canvasMouseLeave pg = pg\<lparr>prevPos := None\<rparr>"

section \<open>Definitions for the statements\<close>

text \<open>
  The darkening rule in the words of the specification:
  \<open>clamp(channel/255 + (-10/100), 0, 1) * 255\<close>, floored, clamped into \<open>[0, 255]\<close>.
\<close>

definition spec_darken_channel :: "int \<Rightarrow> int" where
  "spec_darken_channel c = max 0 (min 255 \<lfloor>clamp (of_int c / 255 + (- 10 / 100)) 0 1 * 255\<rfloor>)"

text \<open>
  A colour of the data model: every channel in \<open>[0, 255]\<close>.
\<close>

definition inRange :: "rgb \<Rightarrow> bool" where
  "inRange c = (0 \<le> r c \<and> r c \<le> 255 \<and> 0 \<le> g c \<and> g c \<le> 255 \<and> 0 \<le> b c \<and> b c \<le> 255)"

text \<open>
  A page with a 1 x 1 grid whose only cell has the given inline colour.
\<close>

definition onePixel :: "string \<Rightarrow> bool \<Rightarrow> bool \<Rightarrow> page" where
  "onePixel color random darken =
     \<lparr>canvasDimension = 1,
      childNodes = [\<lparr>backgroundColor = color, data_x = 0, data_y = 0\<rparr>],
      randomChecked = random, darkenChecked = darken, prevPos = None\<rparr>"

text \<open>
  The dimension validator in the words of the specification: an integer in \<open>(0, 100]\<close>.
\<close>

definition spec_valid_dimension :: "jsvalue \<Rightarrow> bool" where
  "spec_valid_dimension v =
     (case v of Num a \<Rightarrow> a = of_int \<lfloor>a\<rfloor> \<and> 0 < a \<and> a \<le> 100 | _ \<Rightarrow> False)"

text \<open>
  The 2 x 2 grid that \<open>generateCanvasCells\<close> builds on an empty canvas.
\<close>

definition grid2 :: page where
  "grid2 = generateCanvasCells
     \<lparr>canvasDimension = 2, childNodes = [], randomChecked = False, darkenChecked = False, prevPos = None\<rparr>"

section \<open>Properties of the line rasterizer\<close>

text \<open>The loop on the sample segments: horizontal, diagonal, slope one half, and backwards.\<close>

lemma plotLine_examples:
  "plotLine 0 0 5 0 = Some [(0, 0), (1, 0), (2, 0), (3, 0), (4, 0), (5, 0)]"
  "plotLine 0 0 3 3 = Some [(0, 0), (1, 1), (2, 2), (3, 3)]"
  "plotLine 0 0 4 2 = Some [(0, 0), (1, 1), (2, 1), (3, 2), (4, 2)]"
  "plotLine 2 3 0 0 = Some [(2, 3), (1, 2), (1, 1), (0, 0)]"
  by (simp_all add: plotLine_def plotLine_loop.simps)

lemma chain8_Cons: "rest \<noteq> [] \<Longrightarrow> chain8 (c # rest) = (adjacent8 c (hd rest) \<and> chain8 rest)"
  by (cases rest) simp_all

lemma plot_invD:
  assumes "plot_inv X Y da db sx sy x y e"
  shows "0 \<le> da" and "0 \<le> db" and "\<bar>X - x\<bar> \<le> da" and "\<bar>Y - y\<bar> \<le> db"
    and "e = da - db + \<bar>X - x\<bar> * db - \<bar>Y - y\<bar> * da"
    and "x < X \<longrightarrow> sx = 1" and "X < x \<longrightarrow> sx = -1"
    and "y < Y \<longrightarrow> sy = 1" and "Y < y \<longrightarrow> sy = -1"
    and "db \<le> da \<longrightarrow> - db \<le> 2 * e" and "da < db \<longrightarrow> 2 * e \<le> da"
  using assms unfolding plot_inv_def by blast+

lemma plot_invI:
  assumes "0 \<le> da" and "0 \<le> db" and "\<bar>X - x\<bar> \<le> da" and "\<bar>Y - y\<bar> \<le> db"
    and "e = da - db + \<bar>X - x\<bar> * db - \<bar>Y - y\<bar> * da"
    and "x < X \<longrightarrow> sx = 1" and "X < x \<longrightarrow> sx = -1"
    and "y < Y \<longrightarrow> sy = 1" and "Y < y \<longrightarrow> sy = -1"
    and "db \<le> da \<longrightarrow> - db \<le> 2 * e" and "da < db \<longrightarrow> 2 * e \<le> da"
  shows "plot_inv X Y da db sx sy x y e"
  using assms unfolding plot_inv_def by blast

lemma plot_inv_x_pending:
  assumes inv: "plot_inv X Y da db sx sy x y e" and nt: "x \<noteq> X \<or> y \<noteq> Y"
    and enter: "- db \<le> 2 * e"
  shows "x \<noteq> X"
proof
  assume xX: "x = X"
  with nt have q1: "1 \<le> \<bar>Y - y\<bar>" by arith
  note d = plot_invD [OF inv]
  from q1 d(1) have "1 * da \<le> \<bar>Y - y\<bar> * da" by (rule mult_right_mono)
  with d(5) xX have "e \<le> - db" by simp
  with enter q1 d(4) show False by arith
qed

lemma plot_inv_y_pending:
  assumes inv: "plot_inv X Y da db sx sy x y e" and nt: "x \<noteq> X \<or> y \<noteq> Y"
    and enter: "2 * e \<le> da"
  shows "y \<noteq> Y"
proof
  assume yY: "y = Y"
  with nt have p1: "1 \<le> \<bar>X - x\<bar>" by arith
  note d = plot_invD [OF inv]
  from p1 d(2) have "1 * db \<le> \<bar>X - x\<bar> * db" by (rule mult_right_mono)
  with d(5) yY have "da \<le> e" by simp
  with enter p1 d(3) show False by arith
qed

lemma abs_step_towards:
  fixes X x s :: int
  assumes "x \<noteq> X" "x < X \<longrightarrow> s = 1" "X < x \<longrightarrow> s = -1"
  shows "\<bar>X - (x + s)\<bar> = \<bar>X - x\<bar> - 1"
    and "x + s < X \<longrightarrow> s = 1" and "X < x + s \<longrightarrow> s = -1" and "\<bar>(x + s) - x\<bar> \<le> 1"
  using assms by auto

lemma plot_inv_step:
  assumes inv: "plot_inv X Y da db sx sy x y e" and nt: "x \<noteq> X \<or> y \<noteq> Y"
  shows "\<exists>x' y' e'.
           plotLine_loop X Y da (- db) sx sy x y e =
             Option.bind (plotLine_loop X Y da (- db) sx sy x' y' e') (\<lambda>rest. Some ((x, y) # rest)) \<and>
           plot_inv X Y da db sx sy x' y' e' \<and> adjacent8 (x, y) (x', y') \<and>
           (if db \<le> da then \<bar>X - x'\<bar> = \<bar>X - x\<bar> - 1 else \<bar>Y - y'\<bar> = \<bar>Y - y\<bar> - 1)"
proof -
  note d = plot_invD [OF inv]
  consider (xonly) "- db \<le> 2 * e" "\<not> 2 * e \<le> da"
    | (both) "- db \<le> 2 * e" "2 * e \<le> da"
    | (yonly) "\<not> - db \<le> 2 * e" "2 * e \<le> da"
    using d(1,2) by linarith
  then show ?thesis
  proof cases
    case xonly
    have xX: "x \<noteq> X" using inv nt xonly(1) by (rule plot_inv_x_pending)
    note st = abs_step_towards [OF xX d(6,7)]
    have eq: "plotLine_loop X Y da (- db) sx sy x y e =
        Option.bind (plotLine_loop X Y da (- db) sx sy (x + sx) y (e + - db)) (\<lambda>rest. Some ((x, y) # rest))"
      using xonly xX by (subst plotLine_loop.simps) (simp add: Let_def)
    have e': "e + - db = da - db + \<bar>X - (x + sx)\<bar> * db - \<bar>Y - y\<bar> * da"
      unfolding st(1) d(5) by (simp add: algebra_simps)
    have ba: "db \<le> da" using d(11) xonly by linarith
    have inv': "plot_inv X Y da db sx sy (x + sx) y (e + - db)"
    proof (rule plot_invI [OF d(1,2) _ d(4) e' st(2,3) d(8,9)])
      show "\<bar>X - (x + sx)\<bar> \<le> da" using st(1) d(3) by linarith
      show "db \<le> da \<longrightarrow> - db \<le> 2 * (e + - db)" using xonly by arith
      show "da < db \<longrightarrow> 2 * (e + - db) \<le> da" using ba by arith
    qed
    show ?thesis using eq inv' st ba by (intro exI [of _ "x + sx"] exI [of _ y] exI [of _ "e + - db"]) simp
  next
    case both
    have xX: "x \<noteq> X" using inv nt both(1) by (rule plot_inv_x_pending)
    have yY: "y \<noteq> Y" using inv nt both(2) by (rule plot_inv_y_pending)
    note sx = abs_step_towards [OF xX d(6,7)]
    note sy = abs_step_towards [OF yY d(8,9)]
    have eq: "plotLine_loop X Y da (- db) sx sy x y e =
        Option.bind (plotLine_loop X Y da (- db) sx sy (x + sx) (y + sy) (e + - db + da)) (\<lambda>rest. Some ((x, y) # rest))"
      using both xX yY by (subst plotLine_loop.simps) (simp add: Let_def)
    have e': "e + - db + da = da - db + \<bar>X - (x + sx)\<bar> * db - \<bar>Y - (y + sy)\<bar> * da"
      unfolding sx(1) sy(1) d(5) by (simp add: algebra_simps)
    have inv': "plot_inv X Y da db sx sy (x + sx) (y + sy) (e + - db + da)"
    proof (rule plot_invI [OF d(1,2) _ _ e' sx(2,3) sy(2,3)])
      show "\<bar>X - (x + sx)\<bar> \<le> da" using sx(1) d(3) by linarith
      show "\<bar>Y - (y + sy)\<bar> \<le> db" using sy(1) d(4) by linarith
      show "db \<le> da \<longrightarrow> - db \<le> 2 * (e + - db + da)" using both by arith
      show "da < db \<longrightarrow> 2 * (e + - db + da) \<le> da" using both by arith
    qed
    show ?thesis using eq inv' sx sy
      by (intro exI [of _ "x + sx"] exI [of _ "y + sy"] exI [of _ "e + - db + da"]) simp
  next
    case yonly
    have yY: "y \<noteq> Y" using inv nt yonly(2) by (rule plot_inv_y_pending)
    note st = abs_step_towards [OF yY d(8,9)]
    have eq: "plotLine_loop X Y da (- db) sx sy x y e =
        Option.bind (plotLine_loop X Y da (- db) sx sy x (y + sy) (e + da)) (\<lambda>rest. Some ((x, y) # rest))"
      using yonly yY by (subst plotLine_loop.simps) (simp add: Let_def)
    have e': "e + da = da - db + \<bar>X - x\<bar> * db - \<bar>Y - (y + sy)\<bar> * da"
      unfolding st(1) d(5) by (simp add: algebra_simps)
    have ab: "da < db" using d(10) yonly by linarith
    have inv': "plot_inv X Y da db sx sy x (y + sy) (e + da)"
    proof (rule plot_invI [OF d(1,2,3) _ e' d(6,7) st(2,3)])
      show "\<bar>Y - (y + sy)\<bar> \<le> db" using st(1) d(4) by linarith
      show "db \<le> da \<longrightarrow> - db \<le> 2 * (e + da)" using ab by arith
      show "da < db \<longrightarrow> 2 * (e + da) \<le> da" using yonly ab by arith
    qed
    show ?thesis using eq inv' st ab by (intro exI [of _ x] exI [of _ "y + sy"] exI [of _ "e + da"]) simp
  qed
qed

lemma plot_inv_target:
  assumes inv: "plot_inv X Y da db sx sy x y e" and z: "plot_dist X Y da db x y = 0"
  shows "x = X \<and> y = Y"
proof (rule ccontr)
  assume "\<not> (x = X \<and> y = Y)"
  then have nt: "x \<noteq> X \<or> y \<noteq> Y" by simp
  note d = plot_invD [OF inv]
  show False
  proof (cases "db \<le> da")
    case True
    with d(10) have "- db \<le> 2 * e" by simp
    with inv nt have "x \<noteq> X" by (rule plot_inv_x_pending)
    with z True show False by (simp add: plot_dist_def)
  next
    case False
    with d(11) have "2 * e \<le> da" by simp
    with inv nt have "y \<noteq> Y" by (rule plot_inv_y_pending)
    with z False show False by (simp add: plot_dist_def)
  qed
qed

lemma plotLine_loop_correct:
  assumes "plot_inv X Y da db sx sy x y e" and "plot_dist X Y da db x y = int n"
  shows "\<exists>cells. plotLine_loop X Y da (- db) sx sy x y e = Some cells \<and>
           cells \<noteq> [] \<and> hd cells = (x, y) \<and> last cells = (X, Y) \<and> chain8 cells \<and>
           length cells = Suc n"
  using assms
proof (induction n arbitrary: x y e)
  case 0
  then have "x = X \<and> y = Y" by (simp add: plot_inv_target)
  then have "plotLine_loop X Y da (- db) sx sy x y e = Some [(X, Y)]"
    by (subst plotLine_loop.simps) simp
  then show ?case using \<open>x = X \<and> y = Y\<close> by simp
next
  case (Suc n)
  from Suc.prems(2) have nt: "x \<noteq> X \<or> y \<noteq> Y"
    by (auto simp: plot_dist_def split: if_splits)
  from plot_inv_step [OF Suc.prems(1) nt] obtain x' y' e' where
    eq: "plotLine_loop X Y da (- db) sx sy x y e =
           Option.bind (plotLine_loop X Y da (- db) sx sy x' y' e') (\<lambda>rest. Some ((x, y) # rest))"
    and inv': "plot_inv X Y da db sx sy x' y' e'"
    and adj: "adjacent8 (x, y) (x', y')"
    and dec: "if db \<le> da then \<bar>X - x'\<bar> = \<bar>X - x\<bar> - 1 else \<bar>Y - y'\<bar> = \<bar>Y - y\<bar> - 1"
    by blast
  from dec Suc.prems(2) have "plot_dist X Y da db x' y' = int n"
    by (simp add: plot_dist_def split: if_splits)
  from Suc.IH [OF inv' this] obtain rest where
    rest: "plotLine_loop X Y da (- db) sx sy x' y' e' = Some rest" "rest \<noteq> []"
      "hd rest = (x', y')" "last rest = (X, Y)" "chain8 rest" "length rest = Suc n"
    by blast
  have "plotLine_loop X Y da (- db) sx sy x y e = Some ((x, y) # rest)"
    using eq rest(1) by simp
  moreover have "chain8 ((x, y) # rest)"
    using rest(2,3,5) adj by (simp add: chain8_Cons)
  ultimately show ?case using rest(2,4,6) by simp
qed

lemma plotLine_start_inv:
  "plot_inv x1 y1 \<bar>x1 - x0\<bar> \<bar>y1 - y0\<bar> (if x0 < x1 then 1 else - 1) (if y0 < y1 then 1 else - 1)
     x0 y0 (\<bar>x1 - x0\<bar> + - \<bar>y1 - y0\<bar>)"
  by (rule plot_invI) (simp_all add: algebra_simps, arith+)

lemma plotLine_correct:
  "\<exists>cells. plotLine x0 y0 x1 y1 = Some cells \<and>
           cells \<noteq> [] \<and> hd cells = (x0, y0) \<and> last cells = (x1, y1) \<and> chain8 cells \<and>
           length cells = Suc (nat (max \<bar>x1 - x0\<bar> \<bar>y1 - y0\<bar>))"
proof -
  have "plot_dist x1 y1 \<bar>x1 - x0\<bar> \<bar>y1 - y0\<bar> x0 y0 = int (nat (max \<bar>x1 - x0\<bar> \<bar>y1 - y0\<bar>))"
    by (simp add: plot_dist_def max_def)
  from plotLine_loop_correct [OF plotLine_start_inv this]
  show ?thesis by (simp add: plotLine_def Let_def)
qed


text \<open>
  C1. For every pair of cells (in particular every pair of valid grid coordinates),
  \<open>plotLine\<close> returns, and the cells it touches, in the order of the \<open>changeCellColor\<close>
  calls, start at \<open>(x0, y0)\<close>, end at \<open>(x1, y1)\<close>, are pairwise 8-adjacent, and are at most
  \<open>max \<bar>x1 - x0\<bar> \<bar>y1 - y0\<bar> + 1\<close> many; \<open>plotLine x y x y\<close> touches the one cell \<open>(x, y)\<close>.
\<close>

theorem plotLine_path:
  "(\<exists>cells. plotLine x0 y0 x1 y1 = Some cells \<and> cells \<noteq> [] \<and>
      hd cells = (x0, y0) \<and> last cells = (x1, y1) \<and> chain8 cells \<and>
      int (length cells) \<le> max \<bar>x1 - x0\<bar> \<bar>y1 - y0\<bar> + 1) \<and>
   plotLine x0 y0 x0 y0 = Some [(x0, y0)]"
proof
  from plotLine_correct [of x0 y0 x1 y1]
  show "\<exists>cells. plotLine x0 y0 x1 y1 = Some cells \<and> cells \<noteq> [] \<and>
      hd cells = (x0, y0) \<and> last cells = (x1, y1) \<and> chain8 cells \<and>
      int (length cells) \<le> max \<bar>x1 - x0\<bar> \<bar>y1 - y0\<bar> + 1"
    by auto
  show "plotLine x0 y0 x0 y0 = Some [(x0, y0)]"
    by (simp add: plotLine_def Let_def plotLine_loop.simps)
qed

section \<open>Termination of the loop on JavaScript numbers\<close>

lemma toDouble_exact: "\<bar>v\<bar> \<le> 9007199254740992 \<Longrightarrow> toDouble v = v"
proof (cases "\<bar>v\<bar> < 9007199254740992")
  case True
  then have "spacing v = 1" by (simp add: spacing.simps)
  then show ?thesis by (simp add: toDouble_def Let_def mult_sgn_abs)
next
  case False
  assume "\<bar>v\<bar> \<le> 9007199254740992"
  with False have v: "\<bar>v\<bar> = 9007199254740992" by simp
  then have "spacing v = 2" by (simp add: spacing.simps)
  then have "toDouble v = sgn v * \<bar>v\<bar>" using v by (simp add: toDouble_def Let_def)
  then show ?thesis by (simp add: mult_sgn_abs)
qed

lemma toDouble_tie: "toDouble 9007199254740993 = 9007199254740992"
  by (simp add: toDouble_def spacing.simps Let_def)

lemma stuck_state_no_result:
  assumes "plotLine_loop_double x1 y1 dx dy sx sy x0 y0 error = Some cells"
  shows "\<not> stuck_state x1 y1 dx dy sx sy x0 y0 error"
  apply (rule plotLine_loop_double.raw_induct
      [where P = "\<lambda>x1 y1 dx dy sx sy x0 y0 error cells. \<not> stuck_state x1 y1 dx dy sx sy x0 y0 error",
       OF _ assms])
  subgoal premises prems for f x1 y1 dx dy sx sy x0 y0 error cells
  proof
    assume s: "stuck_state x1 y1 dx dy sx sy x0 y0 error"
    then have eqs: "x1 = 9007199254740994" "y1 = 0" "dx = 2" "dy = 0" "sx = 1" "sy = - 1"
       "x0 = 9007199254740992" "y0 = 0" "error = 2"
      by (simp_all add: stuck_state_def)
    have t: "toDouble (2 * 2) = 4" "toDouble (2 + 0) = 2"
      "toDouble (9007199254740992 + 1) = 9007199254740992"
      by (simp_all add: toDouble_exact toDouble_tie)
    from prems(2) have "Option.bind (f x1 y1 dx dy sx sy x0 y0 error)
          (\<lambda>rest. Some ((x0, y0) # rest)) = Some cells"
      unfolding eqs t Let_def by simp
    then obtain rest where "f x1 y1 dx dy sx sy x0 y0 error = Some rest"
      by (cases "f x1 y1 dx dy sx sy x0 y0 error") auto
    from prems(1) [OF this] s show False by simp
  qed
  done

lemma stuck_state_never_returns:
  "plotLine_loop_double 9007199254740994 0 2 0 1 (- 1) 9007199254740992 0 2 = None"
proof (cases "plotLine_loop_double 9007199254740994 0 2 0 1 (- 1) 9007199254740992 0 2")
  case (Some cells)
  from stuck_state_no_result [OF this] show ?thesis by (simp add: stuck_state_def)
qed simp

text \<open>
  C2, as stated, fails: the arguments \<open>2 ^ 53\<close>, 0, \<open>2 ^ 53 + 2\<close>, 0 are integers, but
  \<open>x0 + sx\<close> rounds back to \<open>2 ^ 53\<close>, \<open>e2 <= dx\<close> is \<open>4 <= 2\<close>, and the state of the
  loop never changes: the call does not return.
\<close>

theorem plotLine_double_never_returns: "plotLine_double 9007199254740992 0 9007199254740994 0 = None"
proof -
  have t: "toDouble (9007199254740994 - 9007199254740992) = 2" "toDouble (0 - 0) = 0"
    "toDouble (\<bar>2\<bar> + - \<bar>0\<bar>) = 2"
    by (simp_all add: toDouble_exact)
  show ?thesis unfolding plotLine_double_def Let_def t using stuck_state_never_returns by simp
qed

lemma plot_exactD:
  assumes "plot_exact X Y da db x y e"
  shows "- 562949953421312 \<le> X" and "X \<le> 562949953421312"
    and "- 562949953421312 \<le> Y" and "Y \<le> 562949953421312"
    and "- 562949953421312 \<le> x" and "x \<le> 562949953421312"
    and "- 562949953421312 \<le> y" and "y \<le> 562949953421312"
    and "da + db \<le> 2251799813685248"
    and "- (2 * (da + db)) \<le> e" and "e \<le> 2 * (da + db)"
  using assms unfolding plot_exact_def abs_le_iff by simp_all

lemma plot_exactI:
  assumes "- 562949953421312 \<le> X" and "X \<le> 562949953421312"
    and "- 562949953421312 \<le> Y" and "Y \<le> 562949953421312"
    and "- 562949953421312 \<le> x" and "x \<le> 562949953421312"
    and "- 562949953421312 \<le> y" and "y \<le> 562949953421312"
    and "da + db \<le> 2251799813685248"
    and "- (2 * (da + db)) \<le> e" and "e \<le> 2 * (da + db)"
  shows "plot_exact X Y da db x y e"
  using assms unfolding plot_exact_def abs_le_iff by simp

lemma toDouble_small:
  assumes "- 9007199254740992 \<le> v" and "v \<le> 9007199254740992"
  shows "toDouble v = v"
  using assms by (intro toDouble_exact) (simp add: abs_le_iff)

lemma step_within:
  fixes X x s B :: int
  assumes "x \<noteq> X" and "x < X \<longrightarrow> s = 1" and "X < x \<longrightarrow> s = -1"
    and "- B \<le> X" and "X \<le> B" and "- B \<le> x" and "x \<le> B"
  shows "- B \<le> x + s" and "x + s \<le> B"
  using assms by auto

lemma plot_double_step:
  assumes inv: "plot_inv X Y da db sx sy x y e" and ex: "plot_exact X Y da db x y e"
    and nt: "x \<noteq> X \<or> y \<noteq> Y"
  shows "\<exists>x' y' e'.
           plotLine_loop_double X Y da (- db) sx sy x y e =
             Option.bind (plotLine_loop_double X Y da (- db) sx sy x' y' e')
               (\<lambda>rest. Some ((x, y) # rest)) \<and>
           plotLine_loop X Y da (- db) sx sy x y e =
             Option.bind (plotLine_loop X Y da (- db) sx sy x' y' e')
               (\<lambda>rest. Some ((x, y) # rest)) \<and>
           plot_inv X Y da db sx sy x' y' e' \<and> plot_exact X Y da db x' y' e' \<and>
           (if db \<le> da then \<bar>X - x'\<bar> = \<bar>X - x\<bar> - 1 else \<bar>Y - y'\<bar> = \<bar>Y - y\<bar> - 1)"
proof -
  note d = plot_invD [OF inv]
  note b = plot_exactD [OF ex]
  have e2: "toDouble (2 * e) = 2 * e"
    by (rule toDouble_small) (use b(9,10,11) in presburger)+
  consider (xonly) "- db \<le> 2 * e" "\<not> 2 * e \<le> da"
    | (both) "- db \<le> 2 * e" "2 * e \<le> da"
    | (yonly) "\<not> - db \<le> 2 * e" "2 * e \<le> da"
    using d(1,2) by linarith
  then show ?thesis
  proof cases
    case xonly
    have xX: "x \<noteq> X" using inv nt xonly(1) by (rule plot_inv_x_pending)
    note st = abs_step_towards [OF xX d(6,7)]
    note wx = step_within [OF xX d(6,7) b(1,2,5,6)]
    have te: "toDouble (e - db) = e - db"
      by (rule toDouble_small) (use b(9,10,11) d(1,2) in presburger)+
    have tx: "toDouble (x + sx) = x + sx"
      by (rule toDouble_small) (use wx in presburger)+
    have eq: "plotLine_loop_double X Y da (- db) sx sy x y e =
        Option.bind (plotLine_loop_double X Y da (- db) sx sy (x + sx) y (e + - db))
          (\<lambda>rest. Some ((x, y) # rest))"
      using xonly xX by (subst plotLine_loop_double.simps) (simp add: Let_def e2 te tx)
    have eqi: "plotLine_loop X Y da (- db) sx sy x y e =
        Option.bind (plotLine_loop X Y da (- db) sx sy (x + sx) y (e + - db))
          (\<lambda>rest. Some ((x, y) # rest))"
      using xonly xX by (subst plotLine_loop.simps) (simp add: Let_def)
    have e': "e + - db = da - db + \<bar>X - (x + sx)\<bar> * db - \<bar>Y - y\<bar> * da"
      unfolding st(1) d(5) by (simp add: algebra_simps)
    have ba: "db \<le> da" using d(11) xonly by linarith
    have inv': "plot_inv X Y da db sx sy (x + sx) y (e + - db)"
    proof (rule plot_invI [OF d(1,2) _ d(4) e' st(2,3) d(8,9)])
      show "\<bar>X - (x + sx)\<bar> \<le> da" using st(1) d(3) by linarith
      show "db \<le> da \<longrightarrow> - db \<le> 2 * (e + - db)" using xonly by arith
      show "da < db \<longrightarrow> 2 * (e + - db) \<le> da" using ba by arith
    qed
    have ex': "plot_exact X Y da db (x + sx) y (e + - db)"
    proof (rule plot_exactI [OF b(1,2,3,4) wx b(7,8,9)])
      show "- (2 * (da + db)) \<le> e + - db" using xonly d(1,2) by presburger
      show "e + - db \<le> 2 * (da + db)" using b(11) d(2) by presburger
    qed
    show ?thesis using eq eqi inv' ex' st(1) ba
      by (intro exI [of _ "x + sx"] exI [of _ y] exI [of _ "e + - db"]) simp
  next
    case both
    have xX: "x \<noteq> X" using inv nt both(1) by (rule plot_inv_x_pending)
    have yY: "y \<noteq> Y" using inv nt both(2) by (rule plot_inv_y_pending)
    note sx = abs_step_towards [OF xX d(6,7)]
    note sy = abs_step_towards [OF yY d(8,9)]
    note wx = step_within [OF xX d(6,7) b(1,2,5,6)]
    note wy = step_within [OF yY d(8,9) b(3,4,7,8)]
    have te: "toDouble (e - db) = e - db"
      by (rule toDouble_small) (use b(9,10,11) d(1,2) in presburger)+
    have te': "toDouble (e - db + da) = e - db + da"
      by (rule toDouble_small) (use b(9,10,11) d(1,2) in presburger)+
    have tx: "toDouble (x + sx) = x + sx"
      by (rule toDouble_small) (use wx in presburger)+
    have ty: "toDouble (y + sy) = y + sy"
      by (rule toDouble_small) (use wy in presburger)+
    have eq: "plotLine_loop_double X Y da (- db) sx sy x y e =
        Option.bind (plotLine_loop_double X Y da (- db) sx sy (x + sx) (y + sy) (e + - db + da))
          (\<lambda>rest. Some ((x, y) # rest))"
      using both xX yY by (subst plotLine_loop_double.simps) (simp add: Let_def e2 te te' tx ty)
    have eqi: "plotLine_loop X Y da (- db) sx sy x y e =
        Option.bind (plotLine_loop X Y da (- db) sx sy (x + sx) (y + sy) (e + - db + da))
          (\<lambda>rest. Some ((x, y) # rest))"
      using both xX yY by (subst plotLine_loop.simps) (simp add: Let_def)
    have e': "e + - db + da = da - db + \<bar>X - (x + sx)\<bar> * db - \<bar>Y - (y + sy)\<bar> * da"
      unfolding sx(1) sy(1) d(5) by (simp add: algebra_simps)
    have inv': "plot_inv X Y da db sx sy (x + sx) (y + sy) (e + - db + da)"
    proof (rule plot_invI [OF d(1,2) _ _ e' sx(2,3) sy(2,3)])
      show "\<bar>X - (x + sx)\<bar> \<le> da" using sx(1) d(3) by linarith
      show "\<bar>Y - (y + sy)\<bar> \<le> db" using sy(1) d(4) by linarith
      show "db \<le> da \<longrightarrow> - db \<le> 2 * (e + - db + da)" using both by arith
      show "da < db \<longrightarrow> 2 * (e + - db + da) \<le> da" using both by arith
    qed
    have ex': "plot_exact X Y da db (x + sx) (y + sy) (e + - db + da)"
    proof (rule plot_exactI [OF b(1,2,3,4) wx wy b(9)])
      show "- (2 * (da + db)) \<le> e + - db + da" using both d(1,2) by presburger
      show "e + - db + da \<le> 2 * (da + db)" using both d(1,2) by presburger
    qed
    show ?thesis using eq eqi inv' ex' sx(1) sy(1)
      by (intro exI [of _ "x + sx"] exI [of _ "y + sy"] exI [of _ "e + - db + da"]) simp
  next
    case yonly
    have yY: "y \<noteq> Y" using inv nt yonly(2) by (rule plot_inv_y_pending)
    note st = abs_step_towards [OF yY d(8,9)]
    note wy = step_within [OF yY d(8,9) b(3,4,7,8)]
    have te: "toDouble (e + da) = e + da"
      by (rule toDouble_small) (use b(9,10,11) d(1,2) in presburger)+
    have ty: "toDouble (y + sy) = y + sy"
      by (rule toDouble_small) (use wy in presburger)+
    have eq: "plotLine_loop_double X Y da (- db) sx sy x y e =
        Option.bind (plotLine_loop_double X Y da (- db) sx sy x (y + sy) (e + da))
          (\<lambda>rest. Some ((x, y) # rest))"
      using yonly yY by (subst plotLine_loop_double.simps) (simp add: Let_def e2 te ty)
    have eqi: "plotLine_loop X Y da (- db) sx sy x y e =
        Option.bind (plotLine_loop X Y da (- db) sx sy x (y + sy) (e + da))
          (\<lambda>rest. Some ((x, y) # rest))"
      using yonly yY by (subst plotLine_loop.simps) (simp add: Let_def)
    have e': "e + da = da - db + \<bar>X - x\<bar> * db - \<bar>Y - (y + sy)\<bar> * da"
      unfolding st(1) d(5) by (simp add: algebra_simps)
    have ab: "da < db" using d(10) yonly by linarith
    have inv': "plot_inv X Y da db sx sy x (y + sy) (e + da)"
    proof (rule plot_invI [OF d(1,2,3) _ e' d(6,7) st(2,3)])
      show "\<bar>Y - (y + sy)\<bar> \<le> db" using st(1) d(4) by linarith
      show "db \<le> da \<longrightarrow> - db \<le> 2 * (e + da)" using ab by arith
      show "da < db \<longrightarrow> 2 * (e + da) \<le> da" using yonly ab by arith
    qed
    have ex': "plot_exact X Y da db x (y + sy) (e + da)"
    proof (rule plot_exactI [OF b(1,2,3,4,5,6) wy b(9)])
      show "- (2 * (da + db)) \<le> e + da" using b(10) d(1) by presburger
      show "e + da \<le> 2 * (da + db)" using yonly d(1,2) by presburger
    qed
    show ?thesis using eq eqi inv' ex' st(1) ab
      by (intro exI [of _ x] exI [of _ "y + sy"] exI [of _ "e + da"]) simp
  qed
qed

lemma plotLine_loop_double_exact:
  assumes "plot_inv X Y da db sx sy x y e" and "plot_exact X Y da db x y e"
    and "plot_dist X Y da db x y = int n"
  shows "plotLine_loop_double X Y da (- db) sx sy x y e = plotLine_loop X Y da (- db) sx sy x y e"
  using assms
proof (induction n arbitrary: x y e)
  case 0
  then have t: "x = X \<and> y = Y" by (simp add: plot_inv_target)
  then have "plotLine_loop_double X Y da (- db) sx sy x y e = Some [(X, Y)]"
    by (subst plotLine_loop_double.simps) simp
  moreover from t have "plotLine_loop X Y da (- db) sx sy x y e = Some [(X, Y)]"
    by (subst plotLine_loop.simps) simp
  ultimately show ?case by simp
next
  case (Suc n)
  from Suc.prems(3) have nt: "x \<noteq> X \<or> y \<noteq> Y"
    by (auto simp: plot_dist_def split: if_splits)
  from plot_double_step [OF Suc.prems(1,2) nt] obtain x' y' e' where
    eq: "plotLine_loop_double X Y da (- db) sx sy x y e =
           Option.bind (plotLine_loop_double X Y da (- db) sx sy x' y' e')
             (\<lambda>rest. Some ((x, y) # rest))"
    and eqi: "plotLine_loop X Y da (- db) sx sy x y e =
           Option.bind (plotLine_loop X Y da (- db) sx sy x' y' e')
             (\<lambda>rest. Some ((x, y) # rest))"
    and inv': "plot_inv X Y da db sx sy x' y' e'"
    and ex': "plot_exact X Y da db x' y' e'"
    and dec: "if db \<le> da then \<bar>X - x'\<bar> = \<bar>X - x\<bar> - 1 else \<bar>Y - y'\<bar> = \<bar>Y - y\<bar> - 1"
    by blast
  from dec Suc.prems(3) have "plot_dist X Y da db x' y' = int n"
    by (simp add: plot_dist_def split: if_splits)
  from Suc.IH [OF inv' ex' this] show ?case
    unfolding eq eqi by simp
qed

text \<open>
  For arguments of absolute value at most \<open>2 ^ 49\<close> no arithmetic result of \<open>plotLine\<close> is
  rounded: the loop on doubles and the loop on integers do the same.
\<close>

lemma plotLine_double_exact:
  assumes "\<bar>x0\<bar> \<le> 562949953421312" and "\<bar>y0\<bar> \<le> 562949953421312"
    and "\<bar>x1\<bar> \<le> 562949953421312" and "\<bar>y1\<bar> \<le> 562949953421312"
  shows "plotLine_double x0 y0 x1 y1 = plotLine x0 y0 x1 y1"
proof -
  from assms have r: "- 562949953421312 \<le> x0" "x0 \<le> 562949953421312"
    "- 562949953421312 \<le> y0" "y0 \<le> 562949953421312"
    "- 562949953421312 \<le> x1" "x1 \<le> 562949953421312"
    "- 562949953421312 \<le> y1" "y1 \<le> 562949953421312"
    by (simp_all add: abs_le_iff)
  have a: "\<bar>x1 - x0\<bar> \<le> 1125899906842624" "\<bar>y1 - y0\<bar> \<le> 1125899906842624"
    "0 \<le> \<bar>x1 - x0\<bar>" "0 \<le> \<bar>y1 - y0\<bar>"
    using r by (simp_all add: abs_le_iff)
  have t1: "toDouble (x1 - x0) = x1 - x0"
    by (rule toDouble_small) (use r in presburger)+
  have t2: "toDouble (y1 - y0) = y1 - y0"
    by (rule toDouble_small) (use r in presburger)+
  have t3: "toDouble (\<bar>x1 - x0\<bar> + - \<bar>y1 - y0\<bar>) = \<bar>x1 - x0\<bar> + - \<bar>y1 - y0\<bar>"
    by (rule toDouble_small) (use a in presburger)+
  have ex: "plot_exact x1 y1 \<bar>x1 - x0\<bar> \<bar>y1 - y0\<bar> x0 y0 (\<bar>x1 - x0\<bar> + - \<bar>y1 - y0\<bar>)"
    by (rule plot_exactI [OF r(5,6,7,8,1,2,3,4)]) (use a in simp_all)
  have "plot_dist x1 y1 \<bar>x1 - x0\<bar> \<bar>y1 - y0\<bar> x0 y0 = int (nat (max \<bar>x1 - x0\<bar> \<bar>y1 - y0\<bar>))"
    by (simp add: plot_dist_def max_def)
  from plotLine_loop_double_exact [OF plotLine_start_inv ex this]
  show ?thesis
    unfolding plotLine_double_def plotLine_def Let_def t1 t2 t3 by simp
qed

text \<open>
  C2, amended. For all four integer arguments of absolute value at most \<open>2 ^ 49\<close>
  (562949953421312) the \<open>while (true)\<close> loop of \<open>plotLine\<close> terminates: the call returns a
  (finite) list of cells, of length at most \<open>max \<bar>x1 - x0\<bar> \<bar>y1 - y0\<bar> + 1\<close>.
\<close>

theorem plotLine_double_terminates:
  assumes "\<bar>x0\<bar> \<le> 562949953421312" and "\<bar>y0\<bar> \<le> 562949953421312"
    and "\<bar>x1\<bar> \<le> 562949953421312" and "\<bar>y1\<bar> \<le> 562949953421312"
  shows "\<exists>cells. plotLine_double x0 y0 x1 y1 = Some cells \<and>
           int (length cells) \<le> max \<bar>x1 - x0\<bar> \<bar>y1 - y0\<bar> + 1"
  using plotLine_correct [of x0 y0 x1 y1] unfolding plotLine_double_exact [OF assms] by auto

theorem plotLine_double_terminates_witness:
  "plotLine_double 0 0 3 3 = Some [(0, 0), (1, 1), (2, 2), (3, 3)] \<and>
   (\<exists>cells. plotLine_double 0 0 3 3 = Some cells \<and> int (length cells) \<le> max \<bar>3 - 0\<bar> \<bar>3 - 0\<bar> + 1)"
proof -
  have "plotLine_double 0 0 3 3 = Some [(0, 0), (1, 1), (2, 2), (3, 3)]"
    by (simp add: plotLine_double_def plotLine_loop_double.simps toDouble_exact)
  then show ?thesis using plotLine_double_terminates [of 0 0 3 3] by simp
qed

section \<open>Properties of the colour step\<close>

text \<open>
  The darkened channel does not depend on the last digits of the arithmetic: for a channel
  \<open>c\<close> in \<open>[0, 255]\<close> the value under \<open>Math.floor\<close> is \<open>c - 25.6\<close> (base 256) or
  \<open>c - 25.5\<close> (base 255), and any value within \<open>0.1\<close> of it has the same floor after
  clamping. The rounding error of the four double operations involved is below
  a billionth.
\<close>

lemma floor_clamp_margin:
  fixes c :: int and v t hi :: real
  assumes "0 \<le> c" and "c \<le> 255" and "255 \<le> hi"
    and "2 / 5 \<le> t" and "t \<le> 1 / 2" and "\<bar>v - (of_int c - 26 + t)\<bar> \<le> 1 / 10"
  shows "\<lfloor>clamp v 0 hi\<rfloor> = max (c - 26) 0"
proof -
  from assms(6) have lo: "of_int c - 26 + t - 1 / 10 \<le> v" and up: "v \<le> of_int c - 26 + t + 1 / 10"
    by linarith+
  show ?thesis
  proof (cases "26 \<le> c")
    case True
    then have c26: "(26::real) \<le> of_int c" by linarith
    from assms(2) have c255: "of_int c \<le> (255::real)" by linarith
    have "0 \<le> v" using lo c26 assms(4) by linarith
    moreover have "v \<le> hi" using up c255 assms(3,5) by linarith
    ultimately have "clamp v 0 hi = v" by (simp add: clamp_def)
    moreover have "\<lfloor>v\<rfloor> = c - 26"
    proof (rule floor_unique)
      show "of_int (c - 26) \<le> v" using lo assms(4) by simp
      show "v < of_int (c - 26) + 1" using up assms(5) by simp
    qed
    ultimately show ?thesis using True by simp
  next
    case False
    then have "of_int c \<le> (25::real)" by linarith
    with up assms(5) have "v \<le> 0" by linarith
    then have "clamp v 0 hi = 0" using assms(3) by (simp add: clamp_def)
    then show ?thesis using False by simp
  qed
qed

lemma darken256_channel:
  fixes c :: int
  assumes "0 \<le> c" "c \<le> 255"
  shows "\<lfloor>clamp ((of_int c / 256 + - 10 / 100) * 256) 0 256\<rfloor> = max (c - 26) 0"
  by (rule floor_clamp_margin [OF assms, where t = "2 / 5"]) (simp_all add: field_simps)

lemma darken255_channel:
  fixes c :: int
  assumes "0 \<le> c" "c \<le> 255"
  shows "\<lfloor>clamp ((of_int c / 255 + - 10 / 100) * 255) 0 255\<rfloor> = max (c - 26) 0"
  by (rule floor_clamp_margin [OF assms, where t = "1 / 2"]) (simp_all add: field_simps)

lemma spec_darken_channel_eq:
  fixes c :: int
  assumes "0 \<le> c" "c \<le> 255"
  shows "spec_darken_channel c = max (c - 26) 0"
proof (cases "26 \<le> c")
  case True
  then have "(26::real) \<le> of_int c" by linarith
  moreover from assms have "of_int c \<le> (255::real)" by linarith
  ultimately have "clamp (of_int c / 255 + (- 10 / 100)) 0 1 * 255 = of_int c - 51 / 2"
    by (simp add: clamp_def field_simps)
  moreover have "\<lfloor>of_int c - (51 / 2 :: real)\<rfloor> = c - 26"
    by (rule floor_unique) simp_all
  ultimately show ?thesis using True assms by (simp add: spec_darken_channel_def)
next
  case False
  then have "of_int c \<le> (25::real)" by linarith
  then have "clamp (of_int c / 255 + (- 10 / 100)) 0 1 * 255 = 0"
    by (simp add: clamp_def field_simps)
  then show ?thesis using False by (simp add: spec_darken_channel_def)
qed


lemma addressedCell_onePixel: "addressedCell (onePixel color random darken) 0 0 = Some 0"
  by (simp add: addressedCell_def onePixel_def cellIndex_def nodeAt_def js_rem_def js_trunc_def)

lemma addressedCell_length: "addressedCell pg x y = Some pos \<Longrightarrow> pos < length (childNodes pg)"
  by (auto simp: addressedCell_def nodeAt_def split: option.splits if_splits)

lemma storeColor_invalid:
  assumes "pos < length (childNodes pg)" and "parseCssRgb v = None"
  shows "storeColor pg pos v = pg"
  using assms by (simp add: storeColor_def setBackgroundColor_def)

lemma parseCssRgb_undefined: "parseCssRgb ''rgb(undefined,undefined,undefined)'' = None"
  by (simp add: parseCssRgb_def)

text \<open>
  C3. When the darken toggle is off (Plain or Random mode) and the addressed cell already
  has a colour, \<open>changeCellColor\<close> leaves the page, and so the colour of the cell, as it
  was: the variable \<open>color\<close> is then the string read from the style, the template literal
  produces \<open>rgb(undefined,undefined,undefined)\<close>, and the browser ignores the assignment.
  This holds for \<open>script.js\<close> and for the second file; a cell holding \<open>(100, 150, 200)\<close>
  still holds it afterwards.
\<close>

theorem changeCellColor_repaint_unchanged:
  assumes "\<not> darkenChecked pg" and "addressedCell pg x y = Some pos"
    and "backgroundColor (childNodes pg ! pos) \<noteq> []"
  shows "changeCellColor pg rnd x y = Inr pg \<and> changeCellColor_variant pg rnd x y = Inr pg"
proof -
  have "pos < length (childNodes pg)" using assms(2) by (rule addressedCell_length)
  then have "storeColor pg pos ''rgb(undefined,undefined,undefined)'' = pg"
    using parseCssRgb_undefined by (rule storeColor_invalid)
  then show ?thesis
    using assms by (simp add: changeCellColor_def changeCellColor_variant_def)
qed

theorem changeCellColor_repaint_unchanged_witness:
  "changeCellColor (onePixel ''rgb(100, 150, 200)'' False False) (0, 0, 0) 0 0
     = Inr (onePixel ''rgb(100, 150, 200)'' False False) \<and>
   changeCellColor_variant (onePixel ''rgb(100, 150, 200)'' True False) (0, 0, 0) 0 0
     = Inr (onePixel ''rgb(100, 150, 200)'' True False)"
proof -
  have n: "\<And>rnd. backgroundColor (childNodes (onePixel ''rgb(100, 150, 200)'' rnd False) ! 0) \<noteq> []"
    and d: "\<And>rnd. \<not> darkenChecked (onePixel ''rgb(100, 150, 200)'' rnd False)"
    by (simp_all add: onePixel_def)
  show ?thesis
    using changeCellColor_repaint_unchanged [OF d addressedCell_onePixel n, of False "(0, 0, 0)"]
      changeCellColor_repaint_unchanged [OF d addressedCell_onePixel n, of True "(0, 0, 0)"]
    by simp
qed

lemma darken_onePixel_200:
  "changeCellColor (onePixel ''rgb(200, 200, 200)'' False True) rnd 0 0
     = Inr (onePixel ''rgb(174, 174, 174)'' False True)"
  by (simp add: changeCellColor_def addressedCell_onePixel)
     (simp add: onePixel_def rgbCSSColorToRGB_def matchAllDigits_def Number_def digitValue_def
        increaseColorBrightness_def clamp_def storeColor_def setBackgroundColor_def parseCssRgb_def
        serializeCssRgb_def numberToString_def decimal.simps)

lemma darken_onePixel_black:
  "changeCellColor (onePixel ''rgb(0, 0, 0)'' False True) rnd 0 0
     = Inr (onePixel ''rgb(0, 0, 0)'' False True)"
  by (simp add: changeCellColor_def addressedCell_onePixel)
     (simp add: onePixel_def rgbCSSColorToRGB_def matchAllDigits_def Number_def digitValue_def
        increaseColorBrightness_def clamp_def storeColor_def setBackgroundColor_def parseCssRgb_def
        serializeCssRgb_def numberToString_def decimal.simps)

text \<open>
  For a colour with channels in \<open>[0, 255]\<close>, every channel of the object that
  \<open>increaseColorBrightness color (-10)\<close> returns equals the rule of the specification,
  \<open>floor (clamp (channel / 255 + (-10 / 100)) 0 1 * 255)\<close> clamped into \<open>[0, 255]\<close>, and the
  result is again in range.
\<close>

lemma increaseColorBrightness_darken:
  assumes "inRange c"
  shows "increaseColorBrightness c (- 10)
           = \<lparr>r = spec_darken_channel (r c), g = spec_darken_channel (g c),
               b = spec_darken_channel (b c)\<rparr> \<and>
         inRange (increaseColorBrightness c (- 10)) \<and>
         increaseColorBrightness \<lparr>r = 200, g = 200, b = 200\<rparr> (- 10) = \<lparr>r = 174, g = 174, b = 174\<rparr> \<and>
         increaseColorBrightness \<lparr>r = 0, g = 0, b = 0\<rparr> (- 10) = \<lparr>r = 0, g = 0, b = 0\<rparr> \<and>
         changeCellColor (onePixel ''rgb(200, 200, 200)'' False True) (0, 0, 0) 0 0
           = Inr (onePixel ''rgb(174, 174, 174)'' False True) \<and>
         changeCellColor (onePixel ''rgb(0, 0, 0)'' False True) (0, 0, 0) 0 0
           = Inr (onePixel ''rgb(0, 0, 0)'' False True)"
proof -
  from assms have rng: "0 \<le> r c" "r c \<le> 255" "0 \<le> g c" "g c \<le> 255" "0 \<le> b c" "b c \<le> 255"
    by (simp_all add: inRange_def)
  have val: "increaseColorBrightness c (- 10)
      = \<lparr>r = max (r c - 26) 0, g = max (g c - 26) 0, b = max (b c - 26) 0\<rparr>"
    by (simp only: increaseColorBrightness_def Let_def
        darken256_channel [OF rng(1,2)] darken256_channel [OF rng(3,4)] darken256_channel [OF rng(5,6)])
  have "increaseColorBrightness c (- 10)
      = \<lparr>r = spec_darken_channel (r c), g = spec_darken_channel (g c), b = spec_darken_channel (b c)\<rparr>"
    by (simp add: val spec_darken_channel_eq [OF rng(1,2)] spec_darken_channel_eq [OF rng(3,4)]
        spec_darken_channel_eq [OF rng(5,6)])
  moreover have "inRange (increaseColorBrightness c (- 10))"
    using rng by (simp add: val inRange_def)
  moreover have "increaseColorBrightness \<lparr>r = 200, g = 200, b = 200\<rparr> (- 10) = \<lparr>r = 174, g = 174, b = 174\<rparr>"
    "increaseColorBrightness \<lparr>r = 0, g = 0, b = 0\<rparr> (- 10) = \<lparr>r = 0, g = 0, b = 0\<rparr>"
    by (simp_all add: increaseColorBrightness_def clamp_def)
  ultimately show ?thesis
    using darken_onePixel_200 [of "(0, 0, 0)"] darken_onePixel_black [of "(0, 0, 0)"] by simp
qed

lemma increaseColorBrightness_darken_example:
  "inRange \<lparr>r = 100, g = 150, b = 20\<rparr> \<and>
   increaseColorBrightness \<lparr>r = 100, g = 150, b = 20\<rparr> (- 10) = \<lparr>r = 74, g = 124, b = 0\<rparr> \<and>
   spec_darken_channel 100 = 74 \<and> spec_darken_channel 150 = 124 \<and> spec_darken_channel 20 = 0"
proof -
  have h: "inRange \<lparr>r = 100, g = 150, b = 20\<rparr>" by (simp add: inRange_def)
  have "spec_darken_channel 100 = 74" "spec_darken_channel 150 = 124" "spec_darken_channel 20 = 0"
    by (simp_all add: spec_darken_channel_def clamp_def)
  then show ?thesis using h increaseColorBrightness_darken [OF h] by simp
qed

lemma darken_onePixel_swapped:
  "changeCellColor (onePixel ''rgb(100, 150, 200)'' False True) rnd 0 0
     = Inr (onePixel ''rgb(74, 174, 124)'' False True)"
  by (simp add: changeCellColor_def addressedCell_onePixel)
     (simp add: onePixel_def rgbCSSColorToRGB_def matchAllDigits_def Number_def digitValue_def
        increaseColorBrightness_def clamp_def storeColor_def setBackgroundColor_def parseCssRgb_def
        serializeCssRgb_def numberToString_def decimal.simps)

lemma darken_onePixel_variant:
  "changeCellColor_variant (onePixel ''rgb(100, 150, 200)'' False True) rnd 0 0
     = Inr (onePixel ''rgb(74, 124, 174)'' False True)"
  by (simp add: changeCellColor_variant_def addressedCell_onePixel)
     (simp add: onePixel_def rgbCSSColorToRGB_def matchAllDigits_def Number_def digitValue_def
        changeColorBrightness_def clamp_def storeColor_def setBackgroundColor_def parseCssRgb_def
        serializeCssRgb_def numberToString_def decimal.simps)

text \<open>
  C4. The darken step on a cell should give every channel the value of the rule. In
  \<open>script.js\<close> the template literal writes the darkened channels in the order \<open>r, b, g\<close>:
  a cell holding \<open>(100, 150, 200)\<close> then holds \<open>(74, 174, 124)\<close>, where the rule, and the
  object that \<open>increaseColorBrightness\<close> returns, give \<open>(74, 124, 174)\<close>. The second file
  writes \<open>r, g, b\<close> and stores \<open>(74, 124, 174)\<close>.
\<close>

theorem darken_step_swaps_channels:
  "changeCellColor (onePixel ''rgb(100, 150, 200)'' False True) (0, 0, 0) 0 0
     = Inr (onePixel ''rgb(74, 174, 124)'' False True) \<and>
   changeCellColor_variant (onePixel ''rgb(100, 150, 200)'' False True) (0, 0, 0) 0 0
     = Inr (onePixel ''rgb(74, 124, 174)'' False True) \<and>
   increaseColorBrightness \<lparr>r = 100, g = 150, b = 200\<rparr> (- 10) = \<lparr>r = 74, g = 124, b = 174\<rparr> \<and>
   spec_darken_channel 100 = 74 \<and> spec_darken_channel 150 = 124 \<and> spec_darken_channel 200 = 174"
proof -
  have "increaseColorBrightness \<lparr>r = 100, g = 150, b = 200\<rparr> (- 10) = \<lparr>r = 74, g = 124, b = 174\<rparr>"
    by (simp add: increaseColorBrightness_def clamp_def)
  moreover have "spec_darken_channel 100 = 74" "spec_darken_channel 150 = 124"
    "spec_darken_channel 200 = 174"
    by (simp_all add: spec_darken_channel_def clamp_def)
  ultimately show ?thesis
    using darken_onePixel_swapped [of "(0, 0, 0)"] darken_onePixel_variant [of "(0, 0, 0)"] by simp
qed

text \<open>
  C9. For a colour with channels in \<open>[0, 255]\<close> and percent \<open>-10\<close>, the brightness function
  of \<open>script.js\<close> (base 256) and the one of the second file (base 255) return the same
  colour, each channel being \<open>max (channel - 26) 0\<close>.
\<close>

theorem brightness_variants_agree:
  assumes "inRange c"
  shows "increaseColorBrightness c (- 10) = changeColorBrightness c (- 10) \<and>
         increaseColorBrightness c (- 10)
           = \<lparr>r = max (r c - 26) 0, g = max (g c - 26) 0, b = max (b c - 26) 0\<rparr>"
proof -
  from assms have rng: "0 \<le> r c" "r c \<le> 255" "0 \<le> g c" "g c \<le> 255" "0 \<le> b c" "b c \<le> 255"
    by (simp_all add: inRange_def)
  have "increaseColorBrightness c (- 10)
      = \<lparr>r = max (r c - 26) 0, g = max (g c - 26) 0, b = max (b c - 26) 0\<rparr>"
    by (simp only: increaseColorBrightness_def Let_def
        darken256_channel [OF rng(1,2)] darken256_channel [OF rng(3,4)] darken256_channel [OF rng(5,6)])
  moreover have "changeColorBrightness c (- 10)
      = \<lparr>r = max (r c - 26) 0, g = max (g c - 26) 0, b = max (b c - 26) 0\<rparr>"
    by (simp only: changeColorBrightness_def Let_def
        darken255_channel [OF rng(1,2)] darken255_channel [OF rng(3,4)] darken255_channel [OF rng(5,6)])
  ultimately show ?thesis by simp
qed

theorem brightness_variants_agree_witness:
  "inRange \<lparr>r = 255, g = 26, b = 25\<rparr> \<and>
   increaseColorBrightness \<lparr>r = 255, g = 26, b = 25\<rparr> (- 10) = \<lparr>r = 229, g = 0, b = 0\<rparr> \<and>
   changeColorBrightness \<lparr>r = 255, g = 26, b = 25\<rparr> (- 10) = \<lparr>r = 229, g = 0, b = 0\<rparr>"
proof -
  have h: "inRange \<lparr>r = 255, g = 26, b = 25\<rparr>" by (simp add: inRange_def)
  show ?thesis using h brightness_variants_agree [OF h] by auto
qed

section \<open>Random colours\<close>

text \<open>
  In \<open>script.js\<close> every channel of a random colour is an integer in \<open>[0, 255]\<close>, every
  value of that range is produced by some draw, and a channel has the value \<open>k\<close> exactly
  for the draws in \<open>[k / 256, (k + 1) / 256)\<close>, an interval of the same length for every
  \<open>k\<close>.
\<close>

lemma getRandomColor_range:
  assumes "0 \<le> u1" "u1 < 1" "0 \<le> u2" "u2 < 1" "0 \<le> u3" "u3 < 1"
  shows "inRange (getRandomColor (u1, u2, u3))"
proof -
  have "\<And>u::real. 0 \<le> u \<Longrightarrow> u < 1 \<Longrightarrow> 0 \<le> \<lfloor>u * 256\<rfloor> \<and> \<lfloor>u * 256\<rfloor> \<le> 255"
    by (simp add: floor_le_iff le_floor_iff)
  with assms show ?thesis by (simp add: getRandomColor_def inRange_def)
qed

lemma getRandomColor_attains:
  assumes "0 \<le> k1" "k1 \<le> 255" "0 \<le> k2" "k2 \<le> 255" "0 \<le> k3" "k3 \<le> 255"
  shows "getRandomColor (of_int k1 / 256, of_int k2 / 256, of_int k3 / 256) = \<lparr>r = k1, g = k2, b = k3\<rparr>"
  by (simp add: getRandomColor_def)

lemma getRandomColor_channel:
  "(r (getRandomColor (u1, u2, u3)) = k) = (of_int k / 256 \<le> u1 \<and> u1 < (of_int k + 1) / 256)"
  by (simp add: getRandomColor_def floor_eq_iff field_simps)

text \<open>
  C5. A random colour should reach every value from 0 to 255 in each channel. In the
  second file \<open>getRandomColor\<close> multiplies by 255: a channel is 255 only for a draw of at
  least 1, which \<open>Math.random()\<close> never returns, so its channels stay in \<open>[0, 254]\<close>. At
  the draw \<open>255 / 256\<close> the second file gives 254 where \<open>script.js\<close> gives 255.
\<close>

theorem getRandomColor_variant_255:
  "(r (getRandomColor_variant (u1, u2, u3)) = 255) = (1 \<le> u1 \<and> u1 < 256 / 255) \<and>
   (g (getRandomColor_variant (u1, u2, u3)) = 255) = (1 \<le> u2 \<and> u2 < 256 / 255) \<and>
   (b (getRandomColor_variant (u1, u2, u3)) = 255) = (1 \<le> u3 \<and> u3 < 256 / 255) \<and>
   getRandomColor_variant (255 / 256, 255 / 256, 255 / 256) = \<lparr>r = 254, g = 254, b = 254\<rparr> \<and>
   getRandomColor (255 / 256, 255 / 256, 255 / 256) = \<lparr>r = 255, g = 255, b = 255\<rparr>"
  by (simp add: getRandomColor_variant_def getRandomColor_def floor_eq_iff)

section \<open>Colour strings\<close>

text \<open>
  C6, as stated, fails: the string \<open>black\<close> has no digits, so \<open>rgbCSSColorToRGB\<close> throws a
  \<open>TypeError\<close>, and with the darken toggle on the error leaves \<open>changeCellColor\<close>. With the
  toggle off the string is not treated as unset either: the cell keeps it instead of
  getting the default colour.
\<close>

theorem malformed_color_counterexample:
  "rgbCSSColorToRGB ''black'' = Inl TypeError \<and>
   changeCellColor (onePixel ''black'' False True) (0, 0, 0) 0 0 = Inl TypeError \<and>
   changeCellColor (onePixel ''black'' False False) (0, 0, 0) 0 0 = Inr (onePixel ''black'' False False)"
  by (simp add: changeCellColor_def addressedCell_onePixel)
     (simp add: onePixel_def rgbCSSColorToRGB_def matchAllDigits_def storeColor_def
        setBackgroundColor_def parseCssRgb_def)

lemma changeCellColor_TypeError_iff:
  assumes "addressedCell pg x y = Some pos"
  shows "(changeCellColor pg rnd x y = Inl TypeError) =
         (backgroundColor (childNodes pg ! pos) \<noteq> [] \<and> darkenChecked pg \<and>
          length (matchAllDigits (backgroundColor (childNodes pg ! pos))) < 3)"
  using assms by (simp add: changeCellColor_def rgbCSSColorToRGB_def Let_def)

lemma changeCellColor_unset:
  assumes "addressedCell pg x y = Some pos" and "backgroundColor (childNodes pg ! pos) = []"
  shows "changeCellColor pg rnd x y =
           Inr (storeColor pg pos
             (if randomChecked pg
              then ''rgb('' @ numberToString (r (getRandomColor rnd)) @ '','' @
                     numberToString (b (getRandomColor rnd)) @ '','' @
                     numberToString (g (getRandomColor rnd)) @ '')''
              else ''rgb(240,240,240)''))"
  using assms by (simp add: changeCellColor_def numberToString_def decimal.simps)

lemma changeCellColor_keep:
  assumes "addressedCell pg x y = Some pos" and "backgroundColor (childNodes pg ! pos) \<noteq> []"
    and "\<not> darkenChecked pg"
  shows "changeCellColor pg rnd x y = Inr pg"
proof -
  have "pos < length (childNodes pg)" using assms(1) by (rule addressedCell_length)
  then have "storeColor pg pos ''rgb(undefined,undefined,undefined)'' = pg"
    using parseCssRgb_undefined by (rule storeColor_invalid)
  then show ?thesis using assms by (simp add: changeCellColor_def)
qed

lemma changeCellColor_darken:
  assumes "addressedCell pg x y = Some pos" and "backgroundColor (childNodes pg ! pos) \<noteq> []"
    and "darkenChecked pg" and "3 \<le> length (matchAllDigits (backgroundColor (childNodes pg ! pos)))"
  shows "changeCellColor pg rnd x y =
     Inr (storeColor pg pos
       (''rgb('' @
        numberToString (r (increaseColorBrightness
          \<lparr>r = Number (matchAllDigits (backgroundColor (childNodes pg ! pos)) ! 0),
           g = Number (matchAllDigits (backgroundColor (childNodes pg ! pos)) ! 1),
           b = Number (matchAllDigits (backgroundColor (childNodes pg ! pos)) ! 2)\<rparr> (- 10))) @ '','' @
        numberToString (b (increaseColorBrightness
          \<lparr>r = Number (matchAllDigits (backgroundColor (childNodes pg ! pos)) ! 0),
           g = Number (matchAllDigits (backgroundColor (childNodes pg ! pos)) ! 1),
           b = Number (matchAllDigits (backgroundColor (childNodes pg ! pos)) ! 2)\<rparr> (- 10))) @ '','' @
        numberToString (g (increaseColorBrightness
          \<lparr>r = Number (matchAllDigits (backgroundColor (childNodes pg ! pos)) ! 0),
           g = Number (matchAllDigits (backgroundColor (childNodes pg ! pos)) ! 1),
           b = Number (matchAllDigits (backgroundColor (childNodes pg ! pos)) ! 2)\<rparr> (- 10))) @ '')''))"
  using assms by (simp add: changeCellColor_def rgbCSSColorToRGB_def Let_def)

text \<open>
  C6, amended. A missing (empty) colour string is treated as unset: \<open>rgbCSSColorToRGB\<close>
  returns \<open>undefined\<close> for it and \<open>changeCellColor\<close> takes the default-colour path (the
  random colour or \<open>(240, 240, 240)\<close>) without an error. A string that is not empty is
  never treated as unset: with the darken toggle off the page is left as it is; with the
  toggle on and at least three runs of digits, the first three runs are the colour that
  is darkened and written back; \<open>rgbCSSColorToRGB\<close> throws exactly for the strings that are
  not empty and have fewer than three runs of digits, and \<open>changeCellColor\<close> on an existing
  cell throws exactly when, in addition, the darken toggle is on.
\<close>

theorem color_string_handling:
  assumes "addressedCell pg x y = Some pos" and "color = backgroundColor (childNodes pg ! pos)"
  shows "rgbCSSColorToRGB [] = Inr None \<and>
         (color = [] \<longrightarrow>
            changeCellColor pg rnd x y =
              Inr (storeColor pg pos
                (if randomChecked pg
                 then ''rgb('' @ numberToString (r (getRandomColor rnd)) @ '','' @
                        numberToString (b (getRandomColor rnd)) @ '','' @
                        numberToString (g (getRandomColor rnd)) @ '')''
                 else ''rgb(240,240,240)''))) \<and>
         (color \<noteq> [] \<and> \<not> darkenChecked pg \<longrightarrow> changeCellColor pg rnd x y = Inr pg) \<and>
         (color \<noteq> [] \<and> darkenChecked pg \<and> 3 \<le> length (matchAllDigits color) \<longrightarrow>
            rgbCSSColorToRGB color =
              Inr (Some \<lparr>r = Number (matchAllDigits color ! 0), g = Number (matchAllDigits color ! 1),
                          b = Number (matchAllDigits color ! 2)\<rparr>) \<and>
            changeCellColor pg rnd x y =
              Inr (storeColor pg pos
                (''rgb('' @
                 numberToString (r (increaseColorBrightness
                   \<lparr>r = Number (matchAllDigits color ! 0), g = Number (matchAllDigits color ! 1),
                    b = Number (matchAllDigits color ! 2)\<rparr> (- 10))) @ '','' @
                 numberToString (b (increaseColorBrightness
                   \<lparr>r = Number (matchAllDigits color ! 0), g = Number (matchAllDigits color ! 1),
                    b = Number (matchAllDigits color ! 2)\<rparr> (- 10))) @ '','' @
                 numberToString (g (increaseColorBrightness
                   \<lparr>r = Number (matchAllDigits color ! 0), g = Number (matchAllDigits color ! 1),
                    b = Number (matchAllDigits color ! 2)\<rparr> (- 10))) @ '')''))) \<and>
         (rgbCSSColorToRGB color = Inl TypeError) = (color \<noteq> [] \<and> length (matchAllDigits color) < 3) \<and>
         (changeCellColor pg rnd x y = Inl TypeError) =
           (color \<noteq> [] \<and> darkenChecked pg \<and> length (matchAllDigits color) < 3)"
proof -
  have "rgbCSSColorToRGB [] = Inr None" by (simp add: rgbCSSColorToRGB_def)
  moreover have "(rgbCSSColorToRGB color = Inl TypeError) = (color \<noteq> [] \<and> length (matchAllDigits color) < 3)"
    by (simp add: rgbCSSColorToRGB_def Let_def)
  moreover have "color \<noteq> [] \<and> 3 \<le> length (matchAllDigits color) \<longrightarrow>
      rgbCSSColorToRGB color =
        Inr (Some \<lparr>r = Number (matchAllDigits color ! 0), g = Number (matchAllDigits color ! 1),
                    b = Number (matchAllDigits color ! 2)\<rparr>)"
    by (simp add: rgbCSSColorToRGB_def Let_def)
  ultimately show ?thesis
    using changeCellColor_TypeError_iff [OF assms(1), of rnd] changeCellColor_unset [OF assms(1), of rnd]
      changeCellColor_keep [OF assms(1), of rnd] changeCellColor_darken [OF assms(1), of rnd]
    unfolding assms(2) by blast
qed

theorem color_string_handling_witness:
  "changeCellColor (onePixel [] False True) (0, 0, 0) 0 0 = Inr (onePixel ''rgb(240, 240, 240)'' False True) \<and>
   changeCellColor (onePixel ''rgb(1, 2)'' False True) (0, 0, 0) 0 0 = Inl TypeError \<and>
   changeCellColor (onePixel ''rgb(1, 2, 3)'' False True) (0, 0, 0) 0 0 \<noteq> Inl TypeError \<and>
   changeCellColor (onePixel ''rgb(1, 2, 3)'' False False) (0, 0, 0) 0 0 = Inr (onePixel ''rgb(1, 2, 3)'' False False)"
proof -
  have s: "storeColor (onePixel [] False True) 0 ''rgb(240,240,240)'' = onePixel ''rgb(240, 240, 240)'' False True"
    by (simp add: storeColor_def onePixel_def setBackgroundColor_def parseCssRgb_def serializeCssRgb_def
        Number_def digitValue_def numberToString_def decimal.simps)
  have c: "\<And>s k. s = backgroundColor (childNodes (onePixel s False k) ! 0)"
    by (simp add: onePixel_def)
  have m: "matchAllDigits ''rgb(1, 2)'' = [''1'', ''2'']" "matchAllDigits ''rgb(1, 2, 3)'' = [''1'', ''2'', ''3'']"
    by (simp_all add: matchAllDigits_def)
  have d: "\<And>s. darkenChecked (onePixel s False True)" "\<And>s. \<not> darkenChecked (onePixel s False False)"
    "\<not> randomChecked (onePixel [] False True)"
    by (simp_all add: onePixel_def)
  show ?thesis
    using color_string_handling [OF addressedCell_onePixel c, of "[]" True "(0, 0, 0)"]
      color_string_handling [OF addressedCell_onePixel c, of "''rgb(1, 2)''" True "(0, 0, 0)"]
      color_string_handling [OF addressedCell_onePixel c, of "''rgb(1, 2, 3)''" True "(0, 0, 0)"]
      color_string_handling [OF addressedCell_onePixel c, of "''rgb(1, 2, 3)''" False "(0, 0, 0)"]
    by (simp add: s m d)
qed

section \<open>Resetting the canvas\<close>

text \<open>
  C7, as stated, fails: the answer \<open>2.5\<close> is accepted, and it is not an integer in
  \<open>(0, 100]\<close>.
\<close>

theorem dimension_validator_counterexample:
  "\<not> isInvalidDimension (Num (5 / 2)) \<and> \<not> spec_valid_dimension (Num (5 / 2)) \<and>
   promptDimension Undefined [Num (5 / 2)] = Some (Num (5 / 2), [])"
  by (simp add: spec_valid_dimension_def)

lemma isInvalidDimension_iff:
  "(\<not> isInvalidDimension v) = (\<exists>a. v = Num a \<and> 0 < a \<and> a \<le> 100)"
  by (cases v) auto

lemma promptDimension_rejected:
  assumes "isInvalidDimension v" and "list_all isInvalidDimension rs"
  shows "promptDimension v rs = None"
  using assms by (induction rs arbitrary: v) simp_all

lemma promptDimension_accepts:
  assumes "isInvalidDimension v" and "list_all isInvalidDimension rs" and "\<not> isInvalidDimension a"
  shows "promptDimension v (rs @ a # rest) = Some (a, rest)"
  using assms
proof (induction rs arbitrary: v)
  case Nil
  then show ?case by (cases rest) simp_all
next
  case (Cons x xs)
  then show ?case by simp
qed

text \<open>
  C7, amended. The loop of \<open>resetCanvas\<close> accepts a value if and only if it is a number
  \<open>a\<close> with \<open>0 < a \<le> 100\<close>, whether an integer or not. It rejects 0, 101 and \<open>NaN\<close>
  (input that is not a number) and accepts 1 and 100. It asks again after every rejected
  value, with no bound on the number of rounds: as long as every answer is rejected it has
  not returned, and the first accepted answer, after any number of rejected ones, is the
  new dimension.
\<close>

theorem dimension_validator:
  "(\<not> isInvalidDimension v) = (\<exists>a. v = Num a \<and> 0 < a \<and> a \<le> 100) \<and>
   isInvalidDimension (Num 0) \<and> isInvalidDimension (Num 101) \<and> isInvalidDimension NaN \<and>
   \<not> isInvalidDimension (Num 1) \<and> \<not> isInvalidDimension (Num 100) \<and>
   (list_all isInvalidDimension rs \<longrightarrow> promptDimension Undefined rs = None) \<and>
   (list_all isInvalidDimension rs \<and> \<not> isInvalidDimension a \<longrightarrow>
      promptDimension Undefined (rs @ a # rest) = Some (a, rest))"
  using isInvalidDimension_iff [of v] promptDimension_rejected [of Undefined rs]
    promptDimension_accepts [of Undefined rs a rest]
  by simp

theorem dimension_validator_witness:
  "list_all isInvalidDimension [Num 0, Num 101, NaN, Num (- 3)] \<and> \<not> isInvalidDimension (Num 16) \<and>
   promptDimension Undefined [Num 0, Num 101, NaN, Num (- 3)] = None \<and>
   promptDimension Undefined ([Num 0, Num 101, NaN, Num (- 3)] @ Num 16 # [Num 7]) = Some (Num 16, [Num 7])"
proof -
  have h: "list_all isInvalidDimension [Num 0, Num 101, NaN, Num (- 3)]" by simp
  have k: "\<not> isInvalidDimension (Num 16)" by simp
  from dimension_validator [of "Num 16" "[Num 0, Num 101, NaN, Num (- 3)]" "Num 16" "[Num 7]"] h k
  show ?thesis by blast
qed

text \<open>
  \<open>resetCanvas\<close> of \<open>script.js\<close> never assigns \<open>prevPos\<close>; in the second file it ends with
  \<open>startPainting\<close>, which starts from \<open>undefined\<close>.
\<close>

lemma prevPos_generateCanvasCells: "prevPos (generateCanvasCells pg) = prevPos pg"
  by (simp add: generateCanvasCells_def)

lemma resetCanvas_prevPos:
  "resetCanvas pg answers = Some pg' \<Longrightarrow> prevPos pg' = prevPos pg"
  by (auto simp: resetCanvas_def prevPos_generateCanvasCells split: option.splits)

lemma resetCanvas_variant_prevPos:
  "resetCanvas_variant pg answers = Some pg' \<Longrightarrow> prevPos pg' = None"
  by (auto simp: resetCanvas_variant_def startPainting_def split: option.splits)

text \<open>
  C8. After a reset \<open>prevPos\<close> should be unset, whatever it was before.
  In \<open>script.js\<close> the pointer position \<open>(1, 1)\<close>, left by \<open>mouseLeave\<close> on the last cell of
  the 2 x 2 grid, is still there after \<open>resetCanvas\<close> has rebuilt the grid with dimension
  3; the second file clears it.
\<close>

theorem resetCanvas_keeps_prevPos:
  "map_option prevPos (resetCanvas (mouseLeave grid2 (childNodes grid2 ! 3)) [Num 3]) = Some (Some (1, 1)) \<and>
   map_option prevPos (resetCanvas_variant (mouseLeave grid2 (childNodes grid2 ! 3)) [Num 3]) = Some None"
  by (simp add: resetCanvas_def resetCanvas_variant_def prevPos_generateCanvasCells mouseLeave_def
      startPainting_def)
     (simp add: grid2_def generateCanvasCells_def newCell_def js_rem_def js_trunc_def upt_rec)

section \<open>The cell that \<open>changeCellColor\<close> addresses\<close>

lemma js_rem_of_int:
  fixes x d :: int
  assumes "0 \<le> x" "0 < d"
  shows "js_rem (of_int x) (of_int d) = of_int (x mod d)"
proof -
  have "(0::real) \<le> of_int x / of_int d" using assms by simp
  then have "js_trunc (of_int x / of_int d) = x div d"
    by (simp add: js_trunc_def floor_divide_of_int_eq)
  then have "js_rem (of_int x) (of_int d) = of_int (x - d * (x div d))"
    by (simp add: js_rem_def)
  then show ?thesis by (simp add: minus_mult_div_eq_mod)
qed

lemma cellIndex_of_int:
  fixes x y d :: int
  assumes "0 \<le> x" "0 < d"
  shows "cellIndex (of_int d) x y = Some (of_int (y * d + x mod d))"
  using assms by (simp add: cellIndex_def js_rem_of_int)

lemma row_major_bounds:
  fixes x y d :: int
  assumes "0 < d" "0 \<le> y" "y < d"
  shows "0 \<le> y * d + x mod d" and "y * d + x mod d < d * d"
proof -
  from assms have m: "0 \<le> x mod d" "x mod d < d" by simp_all
  from assms have "0 \<le> y * d" by simp
  with m show "0 \<le> y * d + x mod d" by linarith
  from assms have "y + 1 \<le> d" by simp
  then have "(y + 1) * d \<le> d * d" using assms(1) by (intro mult_right_mono) simp_all
  with m show "y * d + x mod d < d * d" by (simp add: algebra_simps)
qed

lemma nodeAt_of_int:
  assumes "0 \<le> i" "nat i < length nodes"
  shows "nodeAt nodes (Some (of_int i)) = Some (nat i)"
  using assms by (simp add: nodeAt_def)

lemma newCell_of_int:
  fixes i d :: int
  assumes "0 \<le> i" "0 < d"
  shows "newCell (of_int d) (nat i) = \<lparr>backgroundColor = [], data_x = i mod d, data_y = i div d\<rparr>"
proof -
  have "(of_nat (nat i) :: real) = of_int i" using assms by simp
  then show ?thesis
    using assms by (simp add: newCell_def js_rem_of_int floor_divide_of_int_eq)
qed

lemma changeCellColor_stores:
  assumes "addressedCell pg x y = Some pos"
  shows "case changeCellColor pg rnd x y of Inl e \<Rightarrow> True | Inr pg' \<Rightarrow> \<exists>v. pg' = storeColor pg pos v"
  using assms by (auto simp: changeCellColor_def Let_def split: sum.splits)

lemma changeCellColor_variant_stores:
  assumes "addressedCell pg x y = Some pos"
  shows "case changeCellColor_variant pg rnd x y of Inl e \<Rightarrow> True | Inr pg' \<Rightarrow> \<exists>v. pg' = storeColor pg pos v"
  using assms by (auto simp: changeCellColor_variant_def Let_def split: sum.splits)

lemma changeCellColor_variant_TypeError_iff:
  assumes "addressedCell pg x y = Some pos"
  shows "(changeCellColor_variant pg rnd x y = Inl TypeError) =
         (backgroundColor (childNodes pg ! pos) \<noteq> [] \<and> darkenChecked pg \<and>
          length (matchAllDigits (backgroundColor (childNodes pg ! pos))) < 3)"
  using assms by (simp add: changeCellColor_variant_def rgbCSSColorToRGB_def Let_def)

lemma changeCellColor_variant_unset:
  assumes "addressedCell pg x y = Some pos" and "backgroundColor (childNodes pg ! pos) = []"
  shows "changeCellColor_variant pg rnd x y =
           Inr (storeColor pg pos
             (if randomChecked pg
              then ''rgb('' @ numberToString (r (getRandomColor_variant rnd)) @ '','' @
                     numberToString (g (getRandomColor_variant rnd)) @ '','' @
                     numberToString (b (getRandomColor_variant rnd)) @ '')''
              else ''rgb(240,240,240)''))"
  using assms by (simp add: changeCellColor_variant_def numberToString_def decimal.simps)

lemma storeColor_default:
  "storeColor pg pos ''rgb(240,240,240)'' =
     pg\<lparr>childNodes := (childNodes pg)
          [pos := (childNodes pg ! pos)\<lparr>backgroundColor := ''rgb(240, 240, 240)''\<rparr>]\<rparr>"
  by (simp add: storeColor_def setBackgroundColor_def parseCssRgb_def serializeCssRgb_def
      Number_def digitValue_def numberToString_def decimal.simps)

lemma changeCellColor_same_cell:
  assumes "addressedCell pg x y = addressedCell pg x' y'"
  shows "changeCellColor pg rnd x y = changeCellColor pg rnd x' y'"
    and "changeCellColor_variant pg rnd x y = changeCellColor_variant pg rnd x' y'"
  using assms by (simp_all add: changeCellColor_def changeCellColor_variant_def)

lemma addressedCell_grid:
  assumes "0 < d" and "0 \<le> y" and "y < d" and "0 \<le> x"
    and "canvasDimension pg = of_int d" and "length (childNodes pg) = nat (d * d)"
  shows "cellIndex (canvasDimension pg) x y = Some (of_int (y * d + x mod d))"
    and "addressedCell pg x y = Some (nat (y * d + x mod d))"
    and "nat (y * d + x mod d) < length (childNodes pg)"
proof -
  let ?i = "y * d + x mod d"
  note bnd = row_major_bounds [OF assms(1,2,3), of x]
  show idx: "cellIndex (canvasDimension pg) x y = Some (of_int ?i)"
    using assms by (simp add: cellIndex_of_int)
  show len: "nat ?i < length (childNodes pg)"
    using bnd assms(6) by simp
  show "addressedCell pg x y = Some (nat ?i)"
    unfolding addressedCell_def idx using bnd(1) len by (rule nodeAt_of_int)
qed

text \<open>
  C10. On a grid of dimension \<open>d\<close> with its \<open>d * d\<close> cells, for \<open>0 \<le> y < d\<close> and
  \<open>0 \<le> x\<close>, \<open>changeCellColor\<close> (in both files) computes the index \<open>y * d + x mod d\<close> and
  the node at that index exists. The cell that \<open>generateCanvasCells\<close> puts there has
  \<open>data-x = x mod d\<close> and \<open>data-y = y\<close>: for \<open>x < d\<close> it is the cell \<open>(x, y)\<close>. The call
  throws only when the colour of that node cannot be parsed in darken mode, never for the
  position; when the node is unset the call paints that node (with \<open>(240, 240, 240)\<close> in
  plain mode); no other node can change; and a call with an \<open>x\<close> beyond the grid is the
  same as the call with \<open>x mod d\<close> in the same row.
\<close>

theorem changeCellColor_addresses:
  assumes "0 < d" and "0 \<le> y" and "y < d" and "0 \<le> x"
    and "canvasDimension pg = of_int d" and "length (childNodes pg) = nat (d * d)"
  shows "cellIndex (canvasDimension pg) x y = Some (of_int (y * d + x mod d)) \<and>
         addressedCell pg x y = Some (nat (y * d + x mod d)) \<and>
         nat (y * d + x mod d) < length (childNodes pg) \<and>
         (x < d \<longrightarrow> addressedCell pg x y = Some (nat (y * d + x))) \<and>
         data_x (childNodes (generateCanvasCells (pg\<lparr>childNodes := []\<rparr>)) ! nat (y * d + x mod d)) = x mod d \<and>
         data_y (childNodes (generateCanvasCells (pg\<lparr>childNodes := []\<rparr>)) ! nat (y * d + x mod d)) = y \<and>
         (changeCellColor pg rnd x y = Inl TypeError) =
           (backgroundColor (childNodes pg ! nat (y * d + x mod d)) \<noteq> [] \<and> darkenChecked pg \<and>
            length (matchAllDigits (backgroundColor (childNodes pg ! nat (y * d + x mod d)))) < 3) \<and>
         (changeCellColor_variant pg rnd x y = Inl TypeError) =
           (backgroundColor (childNodes pg ! nat (y * d + x mod d)) \<noteq> [] \<and> darkenChecked pg \<and>
            length (matchAllDigits (backgroundColor (childNodes pg ! nat (y * d + x mod d)))) < 3) \<and>
         (backgroundColor (childNodes pg ! nat (y * d + x mod d)) = [] \<longrightarrow>
            changeCellColor pg rnd x y =
              Inr (storeColor pg (nat (y * d + x mod d))
                (if randomChecked pg
                 then ''rgb('' @ numberToString (r (getRandomColor rnd)) @ '','' @
                        numberToString (b (getRandomColor rnd)) @ '','' @
                        numberToString (g (getRandomColor rnd)) @ '')''
                 else ''rgb(240,240,240)'')) \<and>
            changeCellColor_variant pg rnd x y =
              Inr (storeColor pg (nat (y * d + x mod d))
                (if randomChecked pg
                 then ''rgb('' @ numberToString (r (getRandomColor_variant rnd)) @ '','' @
                        numberToString (g (getRandomColor_variant rnd)) @ '','' @
                        numberToString (b (getRandomColor_variant rnd)) @ '')''
                 else ''rgb(240,240,240)''))) \<and>
         (backgroundColor (childNodes pg ! nat (y * d + x mod d)) = [] \<and> \<not> randomChecked pg \<longrightarrow>
            changeCellColor pg rnd x y =
              Inr (pg\<lparr>childNodes := (childNodes pg)
                     [nat (y * d + x mod d) := (childNodes pg ! nat (y * d + x mod d))
                        \<lparr>backgroundColor := ''rgb(240, 240, 240)''\<rparr>]\<rparr>) \<and>
            changeCellColor_variant pg rnd x y =
              Inr (pg\<lparr>childNodes := (childNodes pg)
                     [nat (y * d + x mod d) := (childNodes pg ! nat (y * d + x mod d))
                        \<lparr>backgroundColor := ''rgb(240, 240, 240)''\<rparr>]\<rparr>)) \<and>
         changeCellColor pg rnd x y = changeCellColor pg rnd (x mod d) y \<and>
         changeCellColor_variant pg rnd x y = changeCellColor_variant pg rnd (x mod d) y \<and>
         (case changeCellColor pg rnd x y of Inl e \<Rightarrow> True
          | Inr pg' \<Rightarrow> \<exists>v. pg' = storeColor pg (nat (y * d + x mod d)) v) \<and>
         (case changeCellColor_variant pg rnd x y of Inl e \<Rightarrow> True
          | Inr pg' \<Rightarrow> \<exists>v. pg' = storeColor pg (nat (y * d + x mod d)) v)"
proof -
  let ?i = "y * d + x mod d"
  note bnd = row_major_bounds [OF assms(1,2,3), of x]
  note g = addressedCell_grid [OF assms]
  have m: "0 \<le> x mod d" using assms(1) by simp
  have "addressedCell pg (x mod d) y = Some (nat (y * d + x mod d mod d))"
    by (rule addressedCell_grid(2) [OF assms(1,2,3) m assms(5,6)])
  then have same: "addressedCell pg x y = addressedCell pg (x mod d) y"
    using g(2) by simp
  have small: "x < d \<longrightarrow> addressedCell pg x y = Some (nat (y * d + x))"
    using g(2) assms(4) by simp
  have "nat \<lceil>(of_int d :: real) * of_int d\<rceil> = nat (d * d)"
    by (metis ceiling_of_int of_int_mult)
  then have "childNodes (generateCanvasCells (pg\<lparr>childNodes := []\<rparr>)) ! nat ?i
      = newCell (of_int d) (nat ?i)"
    using bnd assms(5) by (simp add: generateCanvasCells_def)
  also have "\<dots> = \<lparr>backgroundColor = [], data_x = ?i mod d, data_y = ?i div d\<rparr>"
    using bnd(1) assms(1) by (rule newCell_of_int)
  finally have gen: "childNodes (generateCanvasCells (pg\<lparr>childNodes := []\<rparr>)) ! nat ?i
      = \<lparr>backgroundColor = [], data_x = x mod d, data_y = y\<rparr>"
    using assms(1) by simp
  have plain: "backgroundColor (childNodes pg ! nat ?i) = [] \<and> \<not> randomChecked pg \<longrightarrow>
      changeCellColor pg rnd x y =
        Inr (pg\<lparr>childNodes := (childNodes pg)
               [nat ?i := (childNodes pg ! nat ?i)\<lparr>backgroundColor := ''rgb(240, 240, 240)''\<rparr>]\<rparr>) \<and>
      changeCellColor_variant pg rnd x y =
        Inr (pg\<lparr>childNodes := (childNodes pg)
               [nat ?i := (childNodes pg ! nat ?i)\<lparr>backgroundColor := ''rgb(240, 240, 240)''\<rparr>]\<rparr>)"
    using changeCellColor_unset [OF g(2), of rnd] changeCellColor_variant_unset [OF g(2), of rnd]
      storeColor_default [of pg "nat ?i"]
    by simp
  have unset: "backgroundColor (childNodes pg ! nat ?i) = [] \<longrightarrow>
      changeCellColor pg rnd x y =
        Inr (storeColor pg (nat ?i)
          (if randomChecked pg
           then ''rgb('' @ numberToString (r (getRandomColor rnd)) @ '','' @
                  numberToString (b (getRandomColor rnd)) @ '','' @
                  numberToString (g (getRandomColor rnd)) @ '')''
           else ''rgb(240,240,240)'')) \<and>
      changeCellColor_variant pg rnd x y =
        Inr (storeColor pg (nat ?i)
          (if randomChecked pg
           then ''rgb('' @ numberToString (r (getRandomColor_variant rnd)) @ '','' @
                  numberToString (g (getRandomColor_variant rnd)) @ '','' @
                  numberToString (b (getRandomColor_variant rnd)) @ '')''
           else ''rgb(240,240,240)''))"
    using changeCellColor_unset [OF g(2), of rnd] changeCellColor_variant_unset [OF g(2), of rnd]
    by blast
  have dx: "data_x (childNodes (generateCanvasCells (pg\<lparr>childNodes := []\<rparr>)) ! nat ?i) = x mod d"
    and dy: "data_y (childNodes (generateCanvasCells (pg\<lparr>childNodes := []\<rparr>)) ! nat ?i) = y"
    by (simp_all add: gen)
  show ?thesis
    by (intro conjI g(1) g(2) g(3) small dx dy
        changeCellColor_TypeError_iff [OF g(2)] changeCellColor_variant_TypeError_iff [OF g(2)]
        unset plain changeCellColor_same_cell [OF same]
        changeCellColor_stores [OF g(2)] changeCellColor_variant_stores [OF g(2)])
qed

theorem changeCellColor_addresses_witness:
  "addressedCell grid2 5 1 = Some 3 \<and> addressedCell grid2 1 1 = Some 3 \<and>
   data_x (childNodes grid2 ! 3) = 1 \<and> data_y (childNodes grid2 ! 3) = 1 \<and>
   changeCellColor grid2 (0, 0, 0) 5 1 =
     Inr (grid2\<lparr>childNodes := (childNodes grid2)
            [3 := \<lparr>backgroundColor = ''rgb(240, 240, 240)'', data_x = 1, data_y = 1\<rparr>]\<rparr>) \<and>
   changeCellColor_variant grid2 (0, 0, 0) 5 1 =
     Inr (grid2\<lparr>childNodes := (childNodes grid2)
            [3 := \<lparr>backgroundColor = ''rgb(240, 240, 240)'', data_x = 1, data_y = 1\<rparr>]\<rparr>) \<and>
   changeCellColor grid2 (0, 0, 0) 5 1 = changeCellColor grid2 (0, 0, 0) 1 1"
proof -
  have g: "grid2 = \<lparr>canvasDimension = 2,
      childNodes = [\<lparr>backgroundColor = [], data_x = 0, data_y = 0\<rparr>,
                    \<lparr>backgroundColor = [], data_x = 1, data_y = 0\<rparr>,
                    \<lparr>backgroundColor = [], data_x = 0, data_y = 1\<rparr>,
                    \<lparr>backgroundColor = [], data_x = 1, data_y = 1\<rparr>],
      randomChecked = False, darkenChecked = False, prevPos = None\<rparr>"
    by (simp add: grid2_def generateCanvasCells_def newCell_def js_rem_def js_trunc_def upt_rec)
  have h: "canvasDimension grid2 = of_int 2" "length (childNodes grid2) = nat (2 * 2)"
    by (simp_all add: g)
  have p: "(0::int) < 2" "(0::int) \<le> 1" "(1::int) < 2" "(0::int) \<le> 5" "(0::int) \<le> 1"
    by simp_all
  have e: "generateCanvasCells (grid2\<lparr>childNodes := []\<rparr>) = grid2"
    by (simp add: grid2_def generateCanvasCells_def)
  have c: "childNodes grid2 ! 3 = \<lparr>backgroundColor = [], data_x = 1, data_y = 1\<rparr>"
    "\<not> randomChecked grid2"
    by (simp_all add: g)
  note T5 = changeCellColor_addresses [OF p(1,2,3,4) h, of "(0, 0, 0)"]
  note T1 = changeCellColor_addresses [OF p(1,2,3,5) h, of "(0, 0, 0)"]
  have a5: "addressedCell grid2 5 1 = Some (nat (1 * 2 + 5 mod 2))"
    using T5 by (elim conjE)
  have a1: "addressedCell grid2 1 1 = Some (nat (1 * 2 + 1 mod 2))"
    using T1 by (elim conjE)
  have dx: "data_x (childNodes (generateCanvasCells (grid2\<lparr>childNodes := []\<rparr>)) ! nat (1 * 2 + 5 mod 2)) = 5 mod 2"
    using T5 by (elim conjE)
  have dy: "data_y (childNodes (generateCanvasCells (grid2\<lparr>childNodes := []\<rparr>)) ! nat (1 * 2 + 5 mod 2)) = 1"
    using T5 by (elim conjE)
  have pl: "backgroundColor (childNodes grid2 ! nat (1 * 2 + 5 mod 2)) = [] \<and> \<not> randomChecked grid2 \<longrightarrow>
      changeCellColor grid2 (0, 0, 0) 5 1 =
        Inr (grid2\<lparr>childNodes := (childNodes grid2)
               [nat (1 * 2 + 5 mod 2) := (childNodes grid2 ! nat (1 * 2 + 5 mod 2))
                  \<lparr>backgroundColor := ''rgb(240, 240, 240)''\<rparr>]\<rparr>) \<and>
      changeCellColor_variant grid2 (0, 0, 0) 5 1 =
        Inr (grid2\<lparr>childNodes := (childNodes grid2)
               [nat (1 * 2 + 5 mod 2) := (childNodes grid2 ! nat (1 * 2 + 5 mod 2))
                  \<lparr>backgroundColor := ''rgb(240, 240, 240)''\<rparr>]\<rparr>)"
    using T5 by (elim conjE)
  have w: "changeCellColor grid2 (0, 0, 0) 5 1 = changeCellColor grid2 (0, 0, 0) (5 mod 2) 1"
    using T5 by (elim conjE)
  have n: "nat (1 * 2 + 5 mod 2) = 3" "nat (1 * 2 + 1 mod 2) = 3" "(5::int) mod 2 = 1"
    by simp_all
  show ?thesis
    using a5 a1 dx dy pl w unfolding n e by (simp add: c)
qed

end
